theory Spec2Isabelle
  imports Complex_Main "HOL-Library.Multiset"
begin

section \<open>Data model (src/types/index.ts)\<close>

text \<open>
  JavaScript numbers are modelled as mathematical numbers: coordinates, sizes, opacity and
  scale factors as \<open>real\<close>, the stacking key \<open>zIndex\<close> and the history cursor as \<open>int\<close>.
  Strings are \<open>string\<close>. A value that may be \<open>null\<close> or absent is an \<open>option\<close>.
  The fields \<open>id\<close>, \<open>text\<close> and \<open>image\<close> carry a prime because the plain names are taken.
\<close>

datatype TextAlign = AlignLeft | AlignCenter | AlignRight

record TextLayer =
  id' :: string
  text' :: string
  x :: real
  y :: real
  width :: real
  height :: real
  rotation :: real
  fontSize :: real
  fontFamily :: string
  fontWeight :: string
  color :: string
  opacity :: real
  textAlign :: TextAlign
  isSelected :: bool
  zIndex :: int
  isVisible :: bool
  scale :: "real option"
  shadowColor :: "string option"
  shadowBlur :: "real option"
  shadowOffsetX :: "real option"
  shadowOffsetY :: "real option"
  backgroundColor :: "string option"
  borderWidth :: "real option"
  borderColor :: "string option"

record CanvasState =
  image' :: "string option"
  imageWidth :: real
  imageHeight :: real
  textLayers :: "TextLayer list"
  selectedLayerId :: "string option"

text \<open>
  The state of the \<open>Home\<close> component (src/app/page.tsx) that the history operations read
  and write: the live document, the list of snapshots and the cursor. The cursor starts
  at \<open>-1\<close> with an empty list.
\<close>

record Home =
  canvasState :: CanvasState
  history :: "CanvasState list"
  historyIndex :: int

definition blankState :: CanvasState where
  "blankState = \<lparr> image' = None, imageWidth = 0, imageHeight = 0,
                  textLayers = [], selectedLayerId = None \<rparr>"

definition initialHome :: Home where
  "initialHome = \<lparr> canvasState = blankState, history = [], historyIndex = -1 \<rparr>"

text \<open>JavaScript truthiness of a \<open>string | null\<close>: \<open>null\<close> and the empty string are falsy.\<close>

definition truthy :: "string option \<Rightarrow> bool" where
  "truthy s = (case s of None \<Rightarrow> False | Some v \<Rightarrow> v \<noteq> [])"

section \<open>History (src/app/page.tsx, lines 112-158)\<close>

definition MAX_HISTORY_STEPS :: nat where
  "MAX_HISTORY_STEPS = 20"

text \<open>\<open>Array.prototype.slice(0, end)\<close>: a negative \<open>end\<close> counts from the end of the array.\<close>

definition slice0 :: "'a list \<Rightarrow> int \<Rightarrow> 'a list" where
  "slice0 xs e = (if e < 0 then take (nat (int (length xs) + e)) xs else take (nat e) xs)"

text \<open>
  \<open>addToHistory\<close> computes the new cursor from the updater's arguments \<open>prevHistory\<close> and
  \<open>prevIndex\<close>, and the new array from \<open>prevHistory\<close> and the \<open>historyIndex\<close> that the
  callback closed over when it was created (\<open>useCallback\<close> with dependency
  \<open>[historyIndex]\<close>). The closed-over value is the first argument.
\<close>

definition addToHistory :: "int \<Rightarrow> Home \<Rightarrow> CanvasState \<Rightarrow> Home" where
  "addToHistory capturedIndex st newState =
     (let prevHistory = history st;
          prevIndex = historyIndex st;
          idxHistory = slice0 prevHistory (prevIndex + 1) @ [newState];
          newIndex = (if length idxHistory > MAX_HISTORY_STEPS
                      then int MAX_HISTORY_STEPS - 1
                      else int (length idxHistory) - 1);
          newHistory = slice0 prevHistory (capturedIndex + 1) @ [newState];
          limited = (if length newHistory > MAX_HISTORY_STEPS then tl newHistory else newHistory)
      in st\<lparr> history := limited, historyIndex := newIndex \<rparr>)"

text \<open>
  The pattern every mutating handler of the page ends with:
  \<open>setCanvasState(prev => { newState = ...; addToHistory(newState); return newState })\<close>.
  The handler's \<open>addToHistory\<close> closure holds \<open>capturedIndex\<close>.
\<close>

definition commitState :: "int \<Rightarrow> Home \<Rightarrow> CanvasState \<Rightarrow> Home" where
  "commitState capturedIndex st newState =
     (addToHistory capturedIndex st newState)\<lparr> canvasState := newState \<rparr>"

text \<open>
  One recorded mutation issued by the callback of the current render: \<open>useCallback\<close>
  re-creates \<open>addToHistory\<close> whenever \<open>historyIndex\<close> changes, so the closure holds the
  current cursor.
\<close>

definition recordState :: "Home \<Rightarrow> CanvasState \<Rightarrow> Home" where
  "recordState st newState = commitState (historyIndex st) st newState"

definition recordAll :: "Home \<Rightarrow> CanvasState list \<Rightarrow> Home" where
  "recordAll st snapshots = foldl recordState st snapshots"

text \<open>
  The records of one event: every handler call of the event uses the callbacks of the same
  render, so all its records share one closed-over cursor (the properties panel sends two
  updates per change, a double click on the empty canvas sends a layer update and a
  selection). A run of the page is a sequence of such events.
\<close>

definition recordBatch :: "Home \<Rightarrow> CanvasState list \<Rightarrow> Home" where
  "recordBatch st snapshots = foldl (commitState (historyIndex st)) st snapshots"

definition runEvents :: "Home \<Rightarrow> CanvasState list list \<Rightarrow> Home" where
  "runEvents st batches = foldl recordBatch st batches"

definition canUndo :: "Home \<Rightarrow> bool" where
  "canUndo st = (historyIndex st > 0)"

definition canRedo :: "Home \<Rightarrow> bool" where
  "canRedo st = (historyIndex st < int (length (history st)) - 1)"

text \<open>
  \<open>undo\<close> and \<open>redo\<close> read \<open>history[newIndex]\<close>; the guards keep \<open>newIndex\<close> non-negative,
  and an index past the end of the array (JavaScript yields \<open>undefined\<close>) is \<open>None\<close> here.
\<close>

definition undo :: "Home \<Rightarrow> Home option" where
  "undo st =
     (if historyIndex st > 0 then
        (let newIndex = historyIndex st - 1 in
         if nat newIndex < length (history st)
         then Some (st\<lparr> historyIndex := newIndex, canvasState := history st ! nat newIndex \<rparr>)
         else None)
      else Some st)"

definition redo :: "Home \<Rightarrow> Home option" where
  "redo st =
     (if historyIndex st < int (length (history st)) - 1 then
        (let newIndex = historyIndex st + 1 in
         if 0 \<le> newIndex
         then Some (st\<lparr> historyIndex := newIndex, canvasState := history st ! nat newIndex \<rparr>)
         else None)
      else Some st)"

section \<open>Layer utilities (src/lib/utils.ts)\<close>

text \<open>
  \<open>generateId\<close> draws the id from \<open>Math.random\<close>; the drawn string is an argument of every
  function that creates a layer.
\<close>

definition createDefaultTextLayer :: "string \<Rightarrow> real \<Rightarrow> real \<Rightarrow> TextLayer" where
  "createDefaultTextLayer generatedId px py =
     \<lparr> id' = generatedId, text' = ''Double click to edit'', x = px, y = py,
       width = 200, height = 50, rotation = 0, fontSize = 24, fontFamily = ''Arial'',
       fontWeight = ''normal'', color = ''#000000'', opacity = 1, textAlign = AlignLeft,
       isSelected = False, zIndex = 0, isVisible = True,
       scale = Some 1, shadowColor = Some ''#000000'', shadowBlur = Some 0,
       shadowOffsetX = Some 0, shadowOffsetY = Some 0, backgroundColor = Some ''transparent'',
       borderWidth = Some 0, borderColor = Some ''#000000'' \<rparr>"

definition getNextZIndex :: "TextLayer list \<Rightarrow> int" where
  "getNextZIndex layers = (if length layers = 0 then 0 else Max (set (map zIndex layers)) + 1)"

text \<open>\<open>array.map((value, index) => f(value, index))\<close>.\<close>

definition mapIndexed :: "('a \<Rightarrow> nat \<Rightarrow> 'b) \<Rightarrow> 'a list \<Rightarrow> 'b list" where
  "mapIndexed f xs = map (\<lambda>(i, v). f v i) (enumerate 0 xs)"

text \<open>
  \<open>reorderLayers\<close> removes the element at \<open>fromIndex\<close>, inserts it at \<open>toIndex\<close> (\<open>splice\<close>
  clamps an insertion point past the end) and numbers the result by position. With
  \<open>fromIndex\<close> past the end \<open>splice\<close> removes nothing and the source inserts \<open>undefined\<close>,
  which is no layer: that outcome is \<open>None\<close>. The callers pass array positions, so the
  indices are naturals.
\<close>

definition reorderLayers :: "TextLayer list \<Rightarrow> nat \<Rightarrow> nat \<Rightarrow> TextLayer list option" where
  "reorderLayers layers fromIndex toIndex =
     (if fromIndex < length layers then
        (let removed = layers ! fromIndex;
             result = take fromIndex layers @ drop (Suc fromIndex) layers;
             result2 = take toIndex result @ [removed] @ drop toIndex result
         in Some (mapIndexed (\<lambda>layer index. layer\<lparr> zIndex := int index \<rparr>) result2))
      else None)"

text \<open>
  \<open>normalizeZIndexes\<close> sorts a copy by \<open>zIndex\<close> (\<open>Array.prototype.sort\<close> is stable, as
  \<open>sort_key\<close> is) and numbers the result by position.
\<close>

definition normalizeZIndexes :: "TextLayer list \<Rightarrow> TextLayer list" where
  "normalizeZIndexes layers =
     (let sortedLayers = sort_key zIndex layers
      in mapIndexed (\<lambda>layer index. layer\<lparr> zIndex := int index \<rparr>) sortedLayers)"

section \<open>Partial updates\<close>

text \<open>\<open>Partial<TextLayer>\<close>: every field may be absent.\<close>

record TextLayerPartial =
  p_id :: "string option"
  p_text :: "string option"
  p_x :: "real option"
  p_y :: "real option"
  p_width :: "real option"
  p_height :: "real option"
  p_rotation :: "real option"
  p_fontSize :: "real option"
  p_fontFamily :: "string option"
  p_fontWeight :: "string option"
  p_color :: "string option"
  p_opacity :: "real option"
  p_textAlign :: "TextAlign option"
  p_isSelected :: "bool option"
  p_zIndex :: "int option"
  p_isVisible :: "bool option"
  p_scale :: "real option"
  p_shadowColor :: "string option"
  p_shadowBlur :: "real option"
  p_shadowOffsetX :: "real option"
  p_shadowOffsetY :: "real option"
  p_backgroundColor :: "string option"
  p_borderWidth :: "real option"
  p_borderColor :: "string option"

definition noUpdates :: TextLayerPartial where
  "noUpdates = \<lparr> p_id = None, p_text = None, p_x = None, p_y = None, p_width = None,
       p_height = None, p_rotation = None, p_fontSize = None, p_fontFamily = None,
       p_fontWeight = None, p_color = None, p_opacity = None, p_textAlign = None,
       p_isSelected = None, p_zIndex = None, p_isVisible = None, p_scale = None,
       p_shadowColor = None, p_shadowBlur = None, p_shadowOffsetX = None,
       p_shadowOffsetY = None, p_backgroundColor = None, p_borderWidth = None,
       p_borderColor = None \<rparr>"

definition orElse :: "'a option \<Rightarrow> 'a \<Rightarrow> 'a" where
  "orElse u old = (case u of None \<Rightarrow> old | Some v \<Rightarrow> v)"

definition orKeep :: "'a option \<Rightarrow> 'a option \<Rightarrow> 'a option" where
  "orKeep u old = (case u of None \<Rightarrow> old | Some v \<Rightarrow> Some v)"

text \<open>The object spread \<open>{ ...layer, ...updates }\<close>.\<close>

definition mergeLayer :: "TextLayer \<Rightarrow> TextLayerPartial \<Rightarrow> TextLayer" where
  "mergeLayer layer updates =
     \<lparr> id' = orElse (p_id updates) (id' layer),
       text' = orElse (p_text updates) (text' layer),
       x = orElse (p_x updates) (x layer),
       y = orElse (p_y updates) (y layer),
       width = orElse (p_width updates) (width layer),
       height = orElse (p_height updates) (height layer),
       rotation = orElse (p_rotation updates) (rotation layer),
       fontSize = orElse (p_fontSize updates) (fontSize layer),
       fontFamily = orElse (p_fontFamily updates) (fontFamily layer),
       fontWeight = orElse (p_fontWeight updates) (fontWeight layer),
       color = orElse (p_color updates) (color layer),
       opacity = orElse (p_opacity updates) (opacity layer),
       textAlign = orElse (p_textAlign updates) (textAlign layer),
       isSelected = orElse (p_isSelected updates) (isSelected layer),
       zIndex = orElse (p_zIndex updates) (zIndex layer),
       isVisible = orElse (p_isVisible updates) (isVisible layer),
       scale = orKeep (p_scale updates) (scale layer),
       shadowColor = orKeep (p_shadowColor updates) (shadowColor layer),
       shadowBlur = orKeep (p_shadowBlur updates) (shadowBlur layer),
       shadowOffsetX = orKeep (p_shadowOffsetX updates) (shadowOffsetX layer),
       shadowOffsetY = orKeep (p_shadowOffsetY updates) (shadowOffsetY layer),
       backgroundColor = orKeep (p_backgroundColor updates) (backgroundColor layer),
       borderWidth = orKeep (p_borderWidth updates) (borderWidth layer),
       borderColor = orKeep (p_borderColor updates) (borderColor layer) \<rparr>"

text \<open>\<open>Partial<CanvasState>\<close> and the spread \<open>{ ...prevState, ...updates }\<close>.\<close>

record CanvasStatePartial =
  p_image :: "string option option"
  p_imageWidth :: "real option"
  p_imageHeight :: "real option"
  p_textLayers :: "TextLayer list option"
  p_selectedLayerId :: "string option option"

definition mergeCanvasState :: "CanvasState \<Rightarrow> CanvasStatePartial \<Rightarrow> CanvasState" where
  "mergeCanvasState prevState updates =
     \<lparr> image' = orElse (p_image updates) (image' prevState),
       imageWidth = orElse (p_imageWidth updates) (imageWidth prevState),
       imageHeight = orElse (p_imageHeight updates) (imageHeight prevState),
       textLayers = orElse (p_textLayers updates) (textLayers prevState),
       selectedLayerId = orElse (p_selectedLayerId updates) (selectedLayerId prevState) \<rparr>"

definition onlyTextLayers :: "TextLayer list \<Rightarrow> CanvasStatePartial" where
  "onlyTextLayers layers =
     \<lparr> p_image = None, p_imageWidth = None, p_imageHeight = None,
       p_textLayers = Some layers, p_selectedLayerId = None \<rparr>"

section \<open>Handlers of the page (src/app/page.tsx, lines 161-272 and 533-540)\<close>

text \<open>
  Each handler takes the cursor its \<open>addToHistory\<close> closure holds as first argument.
  Switching the side-bar tab is not modelled.
\<close>

definition updateCanvas :: "int \<Rightarrow> Home \<Rightarrow> CanvasStatePartial \<Rightarrow> Home" where
  "updateCanvas capturedIndex st updates =
     commitState capturedIndex st (mergeCanvasState (canvasState st) updates)"

definition handleImageUpload :: "Home \<Rightarrow> string \<Rightarrow> real \<Rightarrow> real \<Rightarrow> Home" where
  "handleImageUpload st imageData w h =
     (let newState = \<lparr> image' = Some imageData, imageWidth = w, imageHeight = h,
                        textLayers = [], selectedLayerId = None \<rparr>
      in \<lparr> canvasState = newState, history = [newState], historyIndex = 0 \<rparr>)"

definition handleSelectLayer :: "int \<Rightarrow> Home \<Rightarrow> string option \<Rightarrow> Home" where
  "handleSelectLayer capturedIndex st layerId =
     commitState capturedIndex st ((canvasState st)\<lparr> selectedLayerId := layerId \<rparr>)"

definition handleUpdateLayer :: "int \<Rightarrow> Home \<Rightarrow> TextLayerPartial \<Rightarrow> Home" where
  "handleUpdateLayer capturedIndex st updates =
     (let prevState = canvasState st in
      if \<not> truthy (selectedLayerId prevState) then st
      else
        (let updatedLayers = map (\<lambda>layer. if Some (id' layer) = selectedLayerId prevState
                                          then mergeLayer layer updates else layer)
                                 (textLayers prevState)
         in commitState capturedIndex st (prevState\<lparr> textLayers := updatedLayers \<rparr>)))"

definition handleDeleteLayer :: "int \<Rightarrow> Home \<Rightarrow> string \<Rightarrow> Home" where
  "handleDeleteLayer capturedIndex st layerId =
     (let prevState = canvasState st;
          updatedLayers = filter (\<lambda>layer. id' layer \<noteq> layerId) (textLayers prevState);
          newSelectedLayerId = (if selectedLayerId prevState = Some layerId then None
                                else selectedLayerId prevState);
          normalizedLayers = normalizeZIndexes updatedLayers
      in commitState capturedIndex st
           (prevState\<lparr> textLayers := normalizedLayers, selectedLayerId := newSelectedLayerId \<rparr>))"

definition handleDuplicateLayer :: "string \<Rightarrow> int \<Rightarrow> Home \<Rightarrow> string \<Rightarrow> Home" where
  "handleDuplicateLayer randomId capturedIndex st layerId =
     (let prevState = canvasState st in
      case find (\<lambda>l. id' l = layerId) (textLayers prevState) of
        None \<Rightarrow> st
      | Some layer \<Rightarrow>
          (let duplicatedLayer = layer\<lparr> id' := randomId, x := x layer + 20, y := y layer + 20,
                                        zIndex := getNextZIndex (textLayers prevState) \<rparr>;
               updatedLayers = normalizeZIndexes (textLayers prevState @ [duplicatedLayer])
           in commitState capturedIndex st (prevState\<lparr> textLayers := updatedLayers \<rparr>)))"

definition handleAddTextLayer :: "string \<Rightarrow> int \<Rightarrow> Home \<Rightarrow> Home" where
  "handleAddTextLayer randomId capturedIndex st =
     (let prevState = canvasState st in
      if \<not> truthy (image' prevState) then st
      else
        (let newLayer = (createDefaultTextLayer randomId
                           (imageWidth prevState / 2 - 100) (imageHeight prevState / 2 - 25))
                        \<lparr> zIndex := getNextZIndex (textLayers prevState) \<rparr>;
             updatedLayers = normalizeZIndexes (textLayers prevState @ [newLayer])
         in commitState capturedIndex st
              (prevState\<lparr> textLayers := updatedLayers, selectedLayerId := Some (id' newLayer) \<rparr>)))"

text \<open>The \<open>onUpdateLayers\<close> callback handed to the layers panel.\<close>

definition onUpdateLayers :: "int \<Rightarrow> Home \<Rightarrow> TextLayer list \<Rightarrow> Home" where
  "onUpdateLayers capturedIndex st layers =
     (let normalizedLayers = normalizeZIndexes layers
      in commitState capturedIndex st ((canvasState st)\<lparr> textLayers := normalizedLayers \<rparr>))"

text \<open>
  \<open>selectedLayer\<close> (line 365), the prop of the properties panel, and \<open>findIndex\<close>.
\<close>

definition selectedLayer :: "CanvasState \<Rightarrow> TextLayer option" where
  "selectedLayer cs =
     (if truthy (selectedLayerId cs)
      then find (\<lambda>layer. Some (id' layer) = selectedLayerId cs) (textLayers cs)
      else None)"

fun findIndex :: "('a \<Rightarrow> bool) \<Rightarrow> 'a list \<Rightarrow> nat option" where
  "findIndex P [] = None"
| "findIndex P (v # vs) = (if P v then Some 0 else map_option Suc (findIndex P vs))"

section \<open>Layers panel (src/components/LayersPanel.tsx)\<close>

datatype Direction = Up | Down

definition handleMoveLayer :: "int \<Rightarrow> Home \<Rightarrow> string \<Rightarrow> Direction \<Rightarrow> Home" where
  "handleMoveLayer capturedIndex st layerId direction =
     (let layers = textLayers (canvasState st) in
      case findIndex (\<lambda>layer. id' layer = layerId) layers of
        None \<Rightarrow> st
      | Some currentIndex \<Rightarrow>
          if direction = Up \<and> int currentIndex < int (length layers) - 1 then
            (case reorderLayers layers currentIndex (currentIndex + 1) of
               None \<Rightarrow> st | Some newLayers \<Rightarrow> onUpdateLayers capturedIndex st newLayers)
          else if direction = Down \<and> currentIndex > 0 then
            (case reorderLayers layers currentIndex (currentIndex - 1) of
               None \<Rightarrow> st | Some newLayers \<Rightarrow> onUpdateLayers capturedIndex st newLayers)
          else st)"

text \<open>
  \<open>handleDragOver\<close> with the panel's \<open>draggedIndex\<close>; the result is the new page state and
  the new \<open>draggedIndex\<close>. A \<open>reorderLayers\<close> result that is no layer list is \<open>None\<close>.
\<close>

definition handleDragOver ::
    "int \<Rightarrow> Home \<Rightarrow> nat option \<Rightarrow> nat \<Rightarrow> (Home \<times> nat option) option" where
  "handleDragOver capturedIndex st draggedIndex index =
     (case draggedIndex of
        None \<Rightarrow> Some (st, draggedIndex)
      | Some from \<Rightarrow>
          if from = index then Some (st, draggedIndex)
          else (case reorderLayers (textLayers (canvasState st)) from index of
                  None \<Rightarrow> None
                | Some newLayers \<Rightarrow> Some (onUpdateLayers capturedIndex st newLayers, Some index)))"


section \<open>Text measurement\<close>

text \<open>
  The CSS font string \<open>`${weight === 'bold' ? 'bold' : 'normal'} ${size}px ${family}`\<close>,
  kept as its three parts. A 2D context is used only through \<open>measureText(text).width\<close>
  under the font set before; \<open>getContext('2d')\<close> may return \<open>null\<close>, so a context is an
  \<open>option\<close>.
\<close>

datatype Font = Font string real string

definition cssFont :: "string \<Rightarrow> real \<Rightarrow> string \<Rightarrow> Font" where
  "cssFont weight px family = Font (if weight = ''bold'' then ''bold'' else ''normal'') px family"

type_synonym Context2D = "Font \<Rightarrow> string \<Rightarrow> real"

section \<open>Properties panel (src/components/TextProperties.tsx, lines 53-143)\<close>




definition handleTextChange :: "Context2D option \<Rightarrow> int \<Rightarrow> Home \<Rightarrow> string \<Rightarrow> Home" where
  "handleTextChange tempCtx capturedIndex st newText =
     (let st1 = handleUpdateLayer capturedIndex st (noUpdates\<lparr> p_text := Some newText \<rparr>) in
      case tempCtx of
        None \<Rightarrow> st1
      | Some measureText \<Rightarrow>
          (case selectedLayer (canvasState st) of
             None \<Rightarrow> st1
           | Some sel \<Rightarrow>
               handleUpdateLayer capturedIndex st1
                 (noUpdates\<lparr> p_text := Some newText,
                    p_width := Some (measureText (cssFont (fontWeight sel) (fontSize sel) (fontFamily sel))
                                       newText),
                    p_height := Some (fontSize sel) \<rparr>)))"

section \<open>Canvas (src/components/Canvas.tsx)\<close>

text \<open>
  The local state of the component. Its props are the page's \<open>canvasState\<close>, the callbacks
  \<open>updateCanvas\<close> and \<open>handleSelectLayer\<close> of the current render, \<open>zoom\<close> and \<open>showGrid\<close>.
\<close>

record Canvas =
  selectedId :: "string option"
  isDragging :: bool
  dragOffsetX :: real
  dragOffsetY :: real
  editingLayerId :: "string option"
  editingText :: string

text \<open>\<open>Math.round\<close> rounds to the nearest integer, a half upwards.\<close>

definition mathRound :: "real \<Rightarrow> real" where
  "mathRound v = of_int \<lfloor>v + 1 / 2\<rfloor>"

definition snapToGrid :: "real \<Rightarrow> real \<Rightarrow> real" where
  "snapToGrid v gridSize = mathRound (v / gridSize) * gridSize"

definition snapToCenter :: "real \<Rightarrow> real \<Rightarrow> real \<Rightarrow> real \<Rightarrow> real \<times> real" where
  "snapToCenter px py imgWidth imgHeight =
     (let centerX = imgWidth / 2;
          centerY = imgHeight / 2;
          snapThreshold = 50;
          snappedX = (if \<bar>px - centerX\<bar> < snapThreshold then centerX else px);
          snappedY = (if \<bar>py - centerY\<bar> < snapThreshold then centerY else py)
      in (snappedX, snappedY))"

text \<open>
  The snap pipeline that \<open>handleMouseMove\<close> (lines 320-327) and \<open>nudgeLayer\<close> (lines 217-224)
  both apply to the candidate position: grid snap with the default grid size 20 when
  \<open>showGrid\<close> is set, then center snap.
\<close>

definition snapPipeline :: "bool \<Rightarrow> real \<Rightarrow> real \<Rightarrow> real \<Rightarrow> real \<Rightarrow> real \<times> real" where
  "snapPipeline showGrid newX newY imgWidth imgHeight =
     (let gx = (if showGrid then snapToGrid newX 20 else newX);
          gy = (if showGrid then snapToGrid newY 20 else newY)
      in snapToCenter gx gy imgWidth imgHeight)"

datatype Arrow = ArrowUp | ArrowDown | ArrowLeft | ArrowRight

definition nudgeLayer :: "bool \<Rightarrow> int \<Rightarrow> Home \<Rightarrow> string \<Rightarrow> Arrow \<Rightarrow> real \<Rightarrow> Home" where
  "nudgeLayer showGrid capturedIndex st layerId direction amount =
     (let cs = canvasState st in
      case find (\<lambda>l. id' l = layerId) (textLayers cs) of
        None \<Rightarrow> st
      | Some layer \<Rightarrow>
          (let newX = (case direction of ArrowLeft \<Rightarrow> x layer - amount
                         | ArrowRight \<Rightarrow> x layer + amount | _ \<Rightarrow> x layer);
               newY = (case direction of ArrowUp \<Rightarrow> y layer - amount
                         | ArrowDown \<Rightarrow> y layer + amount | _ \<Rightarrow> y layer);
               snapped = snapPipeline showGrid newX newY (imageWidth cs) (imageHeight cs);
               updatedLayers = map (\<lambda>l. if id' l = layerId
                                         then l\<lparr> x := fst snapped, y := snd snapped \<rparr> else l)
                                   (textLayers cs)
           in updateCanvas capturedIndex st (onlyTextLayers updatedLayers)))"

text \<open>\<open>handleMouseMove\<close> with the pointer position already divided by \<open>zoom\<close>.\<close>

definition handleMouseMove :: "bool \<Rightarrow> int \<Rightarrow> Home \<Rightarrow> Canvas \<Rightarrow> real \<Rightarrow> real \<Rightarrow> Home" where
  "handleMouseMove showGrid capturedIndex st cv posX posY =
     (if \<not> isDragging cv \<or> \<not> truthy (selectedId cv) \<or> truthy (editingLayerId cv) then st
      else
        (let cs = canvasState st;
             snapped = snapPipeline showGrid (posX - dragOffsetX cv) (posY - dragOffsetY cv)
                         (imageWidth cs) (imageHeight cs);
             updatedLayers = map (\<lambda>layer. if Some (id' layer) = selectedId cv
                                           then layer\<lparr> x := fst snapped, y := snd snapped \<rparr>
                                           else layer)
                                 (textLayers cs)
         in updateCanvas capturedIndex st (onlyTextLayers updatedLayers)))"

text \<open>
  \<open>findLayerAtPosition\<close>: the \<open>for\<close> loop over the layers sorted by descending \<open>zIndex\<close>
  (a stable sort), with the three alignment branches as written.
\<close>

fun hitLoop :: "Context2D option \<Rightarrow> real \<Rightarrow> real \<Rightarrow> TextLayer list \<Rightarrow> TextLayer option" where
  "hitLoop tempCtx px py [] = None"
| "hitLoop tempCtx px py (layer # rest) =
     (case tempCtx of
        None \<Rightarrow> hitLoop tempCtx px py rest
      | Some measureText \<Rightarrow>
          if opacity layer > 0 \<and> isVisible layer then
            (let textWidth = measureText (cssFont (fontWeight layer) (fontSize layer) (fontFamily layer))
                               (text' layer);
                 textHeight = fontSize layer;
                 layerX = (if textAlign layer = AlignLeft then x layer
                           else if textAlign layer = AlignCenter then x layer - textWidth / 2
                           else x layer - textWidth);
                 layerY = y layer - textHeight;
                 layerWidth = textWidth;
                 layerHeight = textHeight
             in if px \<ge> layerX \<and> px \<le> layerX + layerWidth \<and>
                   py \<ge> layerY \<and> py \<le> layerY + layerHeight
                then Some layer
                else hitLoop tempCtx px py rest)
          else hitLoop tempCtx px py rest)"

definition findLayerAtPosition ::
    "Context2D option \<Rightarrow> CanvasState \<Rightarrow> real \<Rightarrow> real \<Rightarrow> TextLayer option" where
  "findLayerAtPosition tempCtx cs px py =
     (let sortedLayers = sort_key (\<lambda>l. - zIndex l) (textLayers cs)
      in hitLoop tempCtx px py sortedLayers)"

text \<open>
  \<open>String.prototype.trim\<close> on strings of 8-bit characters: the white space and line
  terminator characters below 256 are tab, line feed, vertical tab, form feed, carriage
  return, space and no-break space.
\<close>

definition isWhiteSpace :: "char \<Rightarrow> bool" where
  "isWhiteSpace c = (of_char c \<in> {9, 10, 11, 12, 13, 32, 160 :: nat})"

definition trim :: "string \<Rightarrow> string" where
  "trim s = rev (dropWhile isWhiteSpace (rev (dropWhile isWhiteSpace s)))"

definition handleTextEditSave ::
    "Context2D option \<Rightarrow> int \<Rightarrow> Home \<Rightarrow> Canvas \<Rightarrow> Home \<times> Canvas" where
  "handleTextEditSave tempCtx capturedIndex st cv =
     (let st' =
        (if truthy (editingLayerId cv) \<and> trim (editingText cv) \<noteq> [] then
           (case tempCtx of
              None \<Rightarrow> st
            | Some measureText \<Rightarrow>
                (case find (\<lambda>l. Some (id' l) = editingLayerId cv) (textLayers (canvasState st)) of
                   None \<Rightarrow> st
                 | Some layer \<Rightarrow>
                     (let textWidth = measureText
                            (cssFont (fontWeight layer) (fontSize layer) (fontFamily layer))
                            (editingText cv);
                          updatedLayers =
                            map (\<lambda>l. if Some (id' l) = editingLayerId cv
                                      then l\<lparr> text' := editingText cv, width := textWidth,
                                              height := fontSize layer \<rparr>
                                      else l)
                                (textLayers (canvasState st))
                      in updateCanvas capturedIndex st (onlyTextLayers updatedLayers))))
         else st)
      in (st', cv\<lparr> editingLayerId := None, editingText := [] \<rparr>))"

definition handleTextEditCancel :: "Canvas \<Rightarrow> Canvas" where
  "handleTextEditCancel cv = cv\<lparr> editingLayerId := None, editingText := [] \<rparr>"

text \<open>
  \<open>handleDoubleClick\<close> with the pointer position already divided by \<open>zoom\<close>. The new layer
  is appended without renormalization; both callbacks belong to the same render.
\<close>

definition handleDoubleClick ::
    "Context2D option \<Rightarrow> string \<Rightarrow> bool \<Rightarrow> int \<Rightarrow> Home \<Rightarrow> Canvas \<Rightarrow> real \<Rightarrow> real \<Rightarrow> Home \<times> Canvas" where
  "handleDoubleClick tempCtx randomId showGrid capturedIndex st cv posX posY =
     (let cs = canvasState st in
      case findLayerAtPosition tempCtx cs posX posY of
        Some layer \<Rightarrow>
          (handleSelectLayer capturedIndex st (Some (id' layer)),
           cv\<lparr> editingLayerId := Some (id' layer), editingText := text' layer,
               selectedId := Some (id' layer) \<rparr>)
      | None \<Rightarrow>
          if truthy (image' cs) then
            (let px = (if showGrid then snapToGrid posX 20 else posX);
                 py = (if showGrid then snapToGrid posY 20 else posY);
                 newLayer = (createDefaultTextLayer randomId px py)
                              \<lparr> zIndex := getNextZIndex (textLayers cs) \<rparr>;
                 updatedLayers = textLayers cs @ [newLayer];
                 st1 = updateCanvas capturedIndex st (onlyTextLayers updatedLayers);
                 st2 = handleSelectLayer capturedIndex st1 (Some (id' newLayer))
             in (st2, cv\<lparr> selectedId := Some (id' newLayer),
                          editingLayerId := Some (id' newLayer),
                          editingText := text' newLayer \<rparr>))
          else (st, cv))"

section \<open>Export (src/app/page.tsx, lines 275-342)\<close>

datatype Format = PNG | JPG

record ExportOptions =
  format :: Format
  quality :: real
  scale :: real

text \<open>
  The export is modelled by what it asks of the platform: the sequence of assignments and
  calls on the fresh off-screen canvas and its context, then the arguments of
  \<open>toDataURL\<close>. A rejected promise is an error value.
\<close>

datatype CanvasCmd =
    SetWidth real
  | SetHeight real
  | SetFillStyle string
  | FillRect real real real real
  | DrawImage string real real real real
  | Save
  | SetGlobalAlpha real
  | SetFont Font
  | SetTextAlign TextAlign
  | SetTextBaseline string
  | Translate real real
  | Rotate real
  | FillText string real real
  | Restore

datatype ExportError = ExportError string

record Encoded =
  commands :: "CanvasCmd list"
  mimeType :: string
  encoderQuality :: "real option"

definition drawLayer :: "real \<Rightarrow> TextLayer \<Rightarrow> CanvasCmd list" where
  "drawLayer s layer =
     (if opacity layer > 0 \<and> isVisible layer then
        [Save, SetGlobalAlpha (opacity layer),
         SetFont (cssFont (fontWeight layer) (fontSize layer * s) (fontFamily layer)),
         SetFillStyle (color layer), SetTextAlign (textAlign layer),
         SetTextBaseline ''alphabetic''] @
        (if rotation layer \<noteq> 0
         then [Translate (x layer * s) (y layer * s), Rotate (rotation layer * pi / 180),
               FillText (text' layer) 0 0]
         else [FillText (text' layer) (x layer * s) (y layer * s)]) @
        [Restore]
      else [])"

text \<open>
  \<open>ctxAvailable\<close>: \<open>getContext('2d')\<close> returned a context; \<open>imageLoads\<close>: the image fires
  \<open>onload\<close> rather than \<open>onerror\<close>. The handler only reads the page state; the state is
  returned next to the result.
\<close>

definition handleExport ::
    "bool \<Rightarrow> bool \<Rightarrow> Home \<Rightarrow> ExportOptions \<Rightarrow> (ExportError + Encoded) \<times> Home" where
  "handleExport ctxAvailable imageLoads st options =
     (let cs = canvasState st in
      if \<not> ctxAvailable \<or> \<not> truthy (image' cs) then
        (Inl (ExportError ''Failed to create canvas context''), st)
      else if \<not> imageLoads then
        (Inl (ExportError ''Failed to load image''), st)
      else
        (let scaledWidth = imageWidth cs * ExportOptions.scale options;
             scaledHeight = imageHeight cs * ExportOptions.scale options;
             sortedLayers = sort_key zIndex (textLayers cs);
             mime = (if format options = JPG then ''image/jpeg'' else ''image/png'');
             q = (if format options = JPG then Some (quality options) else None)
         in (Inr \<lparr> commands =
                     [SetWidth scaledWidth, SetHeight scaledHeight,
                      SetFillStyle ''#ffffff'', FillRect 0 0 scaledWidth scaledHeight,
                      DrawImage (the (image' cs)) 0 0 scaledWidth scaledHeight] @
                     concat (map (drawLayer (ExportOptions.scale options)) sortedLayers),
                   mimeType = mime, encoderQuality = q \<rparr>, st)))"

section \<open>Predicates and example values used in the statements\<close>

text \<open>The \<open>zIndex\<close> values of \<open>N\<close> layers are exactly \<open>0, ..., N-1\<close>, as a multiset.\<close>

definition dense :: "TextLayer list \<Rightarrow> bool" where
  "dense layers = (mset (map zIndex layers) = mset (map int [0..<length layers]))"

text \<open>A default layer at \<open>(10, 10)\<close> and a page state with a loaded 400 x 300 image.\<close>

definition exampleLayer :: "string \<Rightarrow> int \<Rightarrow> TextLayer" where
  "exampleLayer layerId z = (createDefaultTextLayer layerId 10 10)\<lparr> zIndex := z \<rparr>"

definition exampleHome :: "TextLayer list \<Rightarrow> string option \<Rightarrow> Home" where
  "exampleHome layers sel =
     (let doc = \<lparr> image' = Some ''img'', imageWidth = 400, imageHeight = 300,
                   textLayers = layers, selectedLayerId = sel \<rparr>
      in \<lparr> canvasState = doc, history = [doc], historyIndex = 0 \<rparr>)"

text \<open>One axis of the snap pipeline: grid snap when active, then center snap.\<close>

definition snapAxis :: "bool \<Rightarrow> real \<Rightarrow> real \<Rightarrow> real" where
  "snapAxis showGrid v c = (let g = (if showGrid then snapToGrid v 20 else v)
                            in if \<bar>g - c\<bar> < 50 then c else g)"

text \<open>
  Hit-testing in the words of the specification: a layer can be hit when it is visible and
  not fully transparent (the guard of the loop); its box has the measured width and the
  font size as height, the left edge given by the alignment and the top edge one text
  height above the anchor; the topmost layer whose box contains the point is returned.
\<close>

definition hittable :: "TextLayer \<Rightarrow> bool" where
  "hittable layer = (opacity layer > 0 \<and> isVisible layer)"

definition textWidth :: "Context2D \<Rightarrow> TextLayer \<Rightarrow> real" where
  "textWidth measureText layer =
     measureText (cssFont (fontWeight layer) (fontSize layer) (fontFamily layer)) (text' layer)"

definition textHeight :: "TextLayer \<Rightarrow> real" where
  "textHeight layer = fontSize layer"

definition boxLeft :: "Context2D \<Rightarrow> TextLayer \<Rightarrow> real" where
  "boxLeft measureText layer =
     (case textAlign layer of
        AlignLeft \<Rightarrow> x layer
      | AlignCenter \<Rightarrow> x layer - textWidth measureText layer / 2
      | AlignRight \<Rightarrow> x layer - textWidth measureText layer)"

definition boxTop :: "TextLayer \<Rightarrow> real" where
  "boxTop layer = y layer - textHeight layer"

definition inBox :: "Context2D \<Rightarrow> TextLayer \<Rightarrow> real \<Rightarrow> real \<Rightarrow> bool" where
  "inBox measureText layer px py =
     (boxLeft measureText layer \<le> px \<and> px \<le> boxLeft measureText layer + textWidth measureText layer \<and>
      boxTop layer \<le> py \<and> py \<le> boxTop layer + textHeight layer)"

definition hitTest :: "Context2D \<Rightarrow> TextLayer list \<Rightarrow> real \<Rightarrow> real \<Rightarrow> TextLayer option" where
  "hitTest measureText layers px py =
     find (\<lambda>layer. hittable layer \<and> inBox measureText layer px py)
          (sort_key (\<lambda>l. - zIndex l) layers)"

definition withRotation :: "(TextLayer \<Rightarrow> real) \<Rightarrow> TextLayer \<Rightarrow> TextLayer" where
  "withRotation r layer = layer\<lparr> rotation := r layer \<rparr>"


text \<open>
  A canvas in text-edit mode and a measurement context for the examples: every character
  is half as wide as the font size.
\<close>

definition editingCanvas :: "string \<Rightarrow> string \<Rightarrow> Canvas" where
  "editingCanvas layerId newText =
     \<lparr> selectedId = Some layerId, isDragging = False, dragOffsetX = 0, dragOffsetY = 0,
       editingLayerId = Some layerId, editingText = newText \<rparr>"

definition exampleMeasure :: Context2D where
  "exampleMeasure f t = (case f of Font w px fam \<Rightarrow> px * real (length t) / 2)"

text \<open>
  Example runs. A page whose selected layer was recoloured by one update, and that page
  after \<open>undo\<close>; an idle canvas; and the page after a double click on the empty canvas of
  a document without layers, which creates and selects a layer with the drawn id \<open>n\<close>.
\<close>

definition recolouredHome :: Home where
  "recolouredHome =
     handleUpdateLayer 0 (exampleHome [exampleLayer ''a'' 0] (Some ''a''))
       (noUpdates\<lparr> p_color := Some ''#ff0000'' \<rparr>)"

definition undoneHome :: Home where
  "undoneHome = recolouredHome\<lparr> historyIndex := 0,
                   canvasState := canvasState (exampleHome [exampleLayer ''a'' 0] (Some ''a'')) \<rparr>"

definition idleCanvas :: Canvas where
  "idleCanvas = \<lparr> selectedId = None, isDragging = False, dragOffsetX = 0, dragOffsetY = 0,
                  editingLayerId = None, editingText = [] \<rparr>"

definition createdHome :: Home where
  "createdHome = fst (handleDoubleClick (Some exampleMeasure) ''n'' False 0
                        (exampleHome [] None) idleCanvas 100 100)"

text \<open>
  The shape of the history that the page maintains: at most \<open>MAX_HISTORY_STEPS\<close> snapshots
  and a cursor between \<open>-1\<close> (nothing recorded yet) and the last position.
\<close>

definition wfHistory :: "Home \<Rightarrow> bool" where
  "wfHistory st = (length (history st) \<le> MAX_HISTORY_STEPS \<and> - 1 \<le> historyIndex st \<and>
                   historyIndex st < int (length (history st)))"

text \<open>The live document is the snapshot under the cursor (once something is recorded).\<close>

definition consistent :: "Home \<Rightarrow> bool" where
  "consistent st = (wfHistory st \<and>
     (0 \<le> historyIndex st \<longrightarrow> history st ! nat (historyIndex st) = canvasState st))"

text \<open>
  The shape of the page state between events when events may record more than once: the
  cursor is at the last snapshot or one past it, and the live document is the last
  snapshot. Within an event with closed-over cursor \<open>c\<close> the second predicate holds.
\<close>

definition settled :: "Home \<Rightarrow> bool" where
  "settled st =
     (length (history st) \<le> MAX_HISTORY_STEPS \<and> - 1 \<le> historyIndex st \<and>
      historyIndex st \<le> int MAX_HISTORY_STEPS - 1 \<and>
      int (length (history st)) - 1 \<le> historyIndex st \<and>
      historyIndex st \<le> int (length (history st)) \<and>
      (0 \<le> historyIndex st \<longrightarrow> history st \<noteq> [] \<and> last (history st) = canvasState st))"

definition batchInv :: "int \<Rightarrow> Home \<Rightarrow> bool" where
  "batchInv c st =
     (- 1 \<le> c \<and> c \<le> historyIndex st \<and> historyIndex st \<le> 19 \<and>
      historyIndex st \<le> int (length (history st)) \<and> length (history st) \<le> 20 \<and>
      (historyIndex st = c \<or> int (length (history st)) \<le> c + 2))"

section \<open>Properties of the history\<close>

lemma slice0_length:
  "- 1 \<le> e \<Longrightarrow> int (length (slice0 xs (e + 1))) = min (e + 1) (int (length xs))"
  by (simp add: slice0_def)

lemma commitState_length:
  assumes "- 1 \<le> c" and "length (history st) \<le> 20"
  shows "int (length (history (commitState c st s))) =
           min 20 (min (c + 1) (int (length (history st))) + 1)"
  using slice0_length [OF assms(1), of "history st"] assms(2)
  by (auto simp: commitState_def addToHistory_def Let_def MAX_HISTORY_STEPS_def)

lemma commitState_index:
  assumes "- 1 \<le> historyIndex st"
  shows "historyIndex (commitState c st s) =
           min 19 (min (historyIndex st + 1) (int (length (history st))))"
  using slice0_length [OF assms, of "history st"]
  by (auto simp: commitState_def addToHistory_def Let_def MAX_HISTORY_STEPS_def)

lemma commitState_last:
  "history (commitState c st s) \<noteq> [] \<and> last (history (commitState c st s)) = s"
proof -
  have "tl (xs @ [s]) \<noteq> [] \<and> last (tl (xs @ [s])) = s" if "19 < length xs"
    for xs :: "CanvasState list"
    using that by (cases xs) simp_all
  then show ?thesis
    by (auto simp: commitState_def addToHistory_def Let_def MAX_HISTORY_STEPS_def)
qed

lemma commitState_canvasState: "canvasState (commitState c st s) = s"
  by (simp add: commitState_def)

lemma addToHistory_bounded:
  assumes "length (history st) \<le> 20"
  shows "length (history (addToHistory c st s)) \<le> 20"
proof -
  have "length (slice0 (history st) e) \<le> 20" for e
    using assms by (auto simp: slice0_def)
  then have "length (slice0 (history st) (c + 1) @ [s]) \<le> 21"
    by (metis Suc_le_mono length_append_singleton eval_nat_numeral(3))
  then show ?thesis
    by (auto simp: addToHistory_def Let_def MAX_HISTORY_STEPS_def)
qed

lemma recordState_history:
  assumes "- 1 \<le> historyIndex st"
  shows "history (recordState st s) =
           (let h = take (nat (historyIndex st + 1)) (history st) @ [s]
            in if length h > MAX_HISTORY_STEPS then tl h else h)"
  using assms by (simp add: recordState_def commitState_def addToHistory_def slice0_def Let_def)

lemma recordState_index:
  assumes "wfHistory st"
  shows "historyIndex (recordState st s) = int (length (history (recordState st s))) - 1"
  using assms
  by (auto simp: recordState_def commitState_def addToHistory_def slice0_def Let_def wfHistory_def
      MAX_HISTORY_STEPS_def)

lemma recordState_length:
  assumes "wfHistory st"
  shows "length (history (recordState st s)) = min MAX_HISTORY_STEPS (nat (historyIndex st + 2))"
  using assms
  by (auto simp: recordState_def commitState_def addToHistory_def slice0_def Let_def wfHistory_def
      MAX_HISTORY_STEPS_def)

lemma recordState_last:
  "last (history (recordState st s)) = s"
proof -
  have "last (tl (xs @ [s])) = s" if "19 < length xs" for xs :: "CanvasState list"
    using that by (cases xs) simp_all
  then show ?thesis
    by (auto simp: recordState_def commitState_def addToHistory_def Let_def MAX_HISTORY_STEPS_def)
qed

lemma recordState_wf:
  assumes "wfHistory st"
  shows "wfHistory (recordState st s)"
  using recordState_index [OF assms, of s] recordState_length [OF assms, of s]
  by (simp add: wfHistory_def MAX_HISTORY_STEPS_def)

lemma recordState_canvasState [simp]:
  "canvasState (recordState st s) = s"
  by (simp add: recordState_def commitState_def)

lemma recordAll_wf:
  "wfHistory st \<Longrightarrow> wfHistory (recordAll st ss)"
  unfolding recordAll_def
  by (induction ss arbitrary: st) (simp_all add: recordState_wf)

lemma recordAll_snoc:
  "recordAll st (ss @ [s]) = recordState (recordAll st ss) s"
  by (simp add: recordAll_def)

lemma recordAll_length:
  assumes "wfHistory st" and "ss \<noteq> []"
  shows "length (history (recordAll st ss)) =
           min MAX_HISTORY_STEPS (nat (historyIndex st + 1) + length ss) \<and>
         historyIndex (recordAll st ss) = int (length (history (recordAll st ss))) - 1"
  using assms(2,1)
proof (induction ss rule: rev_nonempty_induct)
  case (single s)
  then have "nat (historyIndex st + 2) = nat (historyIndex st + 1) + 1"
    by (simp add: wfHistory_def) linarith
  with single show ?case
    using recordState_length [of st s] recordState_index [of st s]
    by (simp add: recordAll_def)
next
  case (snoc s ss)
  let ?m = "recordAll st ss"
  have wf: "wfHistory ?m" using snoc.prems by (rule recordAll_wf)
  have ih: "length (history ?m) = min MAX_HISTORY_STEPS (nat (historyIndex st + 1) + length ss)"
    and ix: "historyIndex ?m = int (length (history ?m)) - 1"
    using snoc.IH [OF snoc.prems] by simp_all
  have "length (history (recordState ?m s)) = min MAX_HISTORY_STEPS (nat (historyIndex ?m + 2))"
    using wf by (rule recordState_length)
  also have "nat (historyIndex ?m + 2) = length (history ?m) + 1"
    using ix by linarith
  also have "min MAX_HISTORY_STEPS (length (history ?m) + 1) =
             min MAX_HISTORY_STEPS (nat (historyIndex st + 1) + length (ss @ [s]))"
    unfolding ih by (simp add: MAX_HISTORY_STEPS_def)
  finally show ?case
    using recordState_index [OF wf, of s] by (simp add: recordAll_snoc)
qed

text \<open>
  With one record per render (the closure holds the current cursor) the history behaves as
  a bounded stack: at most 20 snapshots, the new snapshot last and under the cursor, and
  exactly 20 snapshots after more than 20 records.
\<close>

lemma recordAll_bounded:
  assumes "wfHistory st"
  shows "length (history (recordAll st ss)) \<le> 20 \<and>
         history (recordState st s) =
           (let h = take (nat (historyIndex st + 1)) (history st) @ [s]
            in if length h > 20 then tl h else h) \<and>
         historyIndex (recordState st s) = int (length (history (recordState st s))) - 1 \<and>
         history (recordState st s) ! nat (historyIndex (recordState st s)) = s \<and>
         (length ss > 20 \<longrightarrow> length (history (recordAll st ss)) = 20)"
proof -
  have bound: "length (history (recordAll st ss)) \<le> 20"
    using recordAll_wf [OF assms, of ss] by (simp add: wfHistory_def MAX_HISTORY_STEPS_def)
  have shape: "history (recordState st s) =
           (let h = take (nat (historyIndex st + 1)) (history st) @ [s]
            in if length h > 20 then tl h else h)"
    using recordState_history [of st s] assms
    by (simp add: wfHistory_def MAX_HISTORY_STEPS_def)
  have ix: "historyIndex (recordState st s) = int (length (history (recordState st s))) - 1"
    using assms by (rule recordState_index)
  have ne: "history (recordState st s) \<noteq> []"
    using recordState_length [OF assms, of s] assms
    by (auto simp: wfHistory_def MAX_HISTORY_STEPS_def)
  have "nat (historyIndex (recordState st s)) = length (history (recordState st s)) - 1"
    using ix by linarith
  then have cur: "history (recordState st s) ! nat (historyIndex (recordState st s)) = s"
    using recordState_last [of st s] ne by (simp add: last_conv_nth)
  have full: "length (history (recordAll st ss)) = 20" if "length ss > 20"
  proof -
    from that have "ss \<noteq> []" by auto
    from recordAll_length [OF assms this] that show ?thesis
      by (simp add: MAX_HISTORY_STEPS_def)
  qed
  from bound shape ix cur full show ?thesis by blast
qed

text \<open>
  Claim C1. The bound of 20 holds for every record (\<open>addToHistory_bounded\<close>), and the whole
  claim holds with one record per render (\<open>recordAll_bounded\<close>). It fails when one event
  records twice: \<open>addToHistory\<close> takes the array up to the closed-over \<open>historyIndex\<close> but
  the cursor from the updater's \<open>prevIndex\<close>. On a page with one snapshot and cursor 0,
  typing in the text box of the properties panel (two updates from one render) leaves two
  snapshots, the first of the two updates dropped, and the cursor 2, one past the end.
\<close>

theorem C1_same_render_records:
  "history (exampleHome [exampleLayer ''a'' 0] (Some ''a'')) =
     [canvasState (exampleHome [exampleLayer ''a'' 0] (Some ''a''))] \<and>
   historyIndex (exampleHome [exampleLayer ''a'' 0] (Some ''a'')) = 0 \<and>
   history (handleTextChange (Some exampleMeasure) 0
              (exampleHome [exampleLayer ''a'' 0] (Some ''a'')) ''Hello'') =
     [canvasState (exampleHome [exampleLayer ''a'' 0] (Some ''a'')),
      canvasState (handleTextChange (Some exampleMeasure) 0
                     (exampleHome [exampleLayer ''a'' 0] (Some ''a'')) ''Hello'')] \<and>
   historyIndex (handleTextChange (Some exampleMeasure) 0
                   (exampleHome [exampleLayer ''a'' 0] (Some ''a'')) ''Hello'') = 2"
  by (simp add: handleTextChange_def handleUpdateLayer_def selectedLayer_def commitState_def
      addToHistory_def slice0_def exampleHome_def truthy_def MAX_HISTORY_STEPS_def Let_def
      exampleLayer_def createDefaultTextLayer_def)

lemma batchInv_step:
  assumes "batchInv c st"
  shows "batchInv c (commitState c st s) \<and>
         int (length (history (commitState c st s))) - 1 \<le> historyIndex (commitState c st s)"
proof -
  from assms have c: "- 1 \<le> c" and i: "- 1 \<le> historyIndex st"
    and n: "length (history st) \<le> 20"
    by (simp_all add: batchInv_def)
  note l = commitState_length [OF c n, of s]
  note x = commitState_index [OF i, of c s]
  have len: "length (history (commitState c st s)) \<le> 20" using l by linarith
  show ?thesis
    using assms len unfolding batchInv_def l x by (auto simp: min_def)
qed

lemma batchInv_fold:
  "batchInv c st \<Longrightarrow> batchInv c (foldl (commitState c) st ss)"
  by (induction ss arbitrary: st) (simp_all add: batchInv_step)

lemma batch_nonempty:
  assumes "batchInv c st" and "ss \<noteq> []"
  shows "int (length (history (foldl (commitState c) st ss))) - 1
           \<le> historyIndex (foldl (commitState c) st ss) \<and>
         history (foldl (commitState c) st ss) \<noteq> [] \<and>
         last (history (foldl (commitState c) st ss)) = canvasState (foldl (commitState c) st ss)"
proof -
  from assms(2) obtain ss' s where ss: "ss = ss' @ [s]" by (cases ss rule: rev_cases) auto
  have "batchInv c (foldl (commitState c) st ss')" using assms(1) by (rule batchInv_fold)
  from batchInv_step [OF this, of s] commitState_last [of c "foldl (commitState c) st ss'" s]
  show ?thesis unfolding ss by (simp add: commitState_canvasState)
qed

lemma settled_batchInv: "settled st \<Longrightarrow> batchInv (historyIndex st) st"
  by (simp add: settled_def batchInv_def MAX_HISTORY_STEPS_def)

lemma recordBatch_settled:
  assumes "settled st"
  shows "settled (recordBatch st ss)"
proof (cases "ss = []")
  case True
  with assms show ?thesis by (simp add: recordBatch_def)
next
  case False
  have b: "batchInv (historyIndex st) st" using assms by (rule settled_batchInv)
  from batchInv_fold [OF b, of ss] batch_nonempty [OF b False]
  show ?thesis
    unfolding recordBatch_def settled_def batchInv_def MAX_HISTORY_STEPS_def by auto
qed

text \<open>
  Any event that records leaves the page settled, whatever came before (an \<open>undo\<close>, a
  \<open>redo\<close>, another event).
\<close>

lemma recordBatch_settles:
  assumes "batchInv (historyIndex st) st" and "ss \<noteq> []"
  shows "settled (recordBatch st ss)"
  using batchInv_fold [OF assms(1), of ss] batch_nonempty [OF assms]
  unfolding recordBatch_def settled_def batchInv_def MAX_HISTORY_STEPS_def by auto

lemma runEvents_settled: "settled st \<Longrightarrow> settled (runEvents st bs)"
  unfolding runEvents_def
  by (induction bs arbitrary: st) (simp_all add: recordBatch_settled)

lemma undo_redo_settled:
  assumes "settled st"
  shows "\<exists>u. undo st = Some u \<and> (\<exists>r. redo u = Some r \<and> canvasState r = canvasState st) \<and>
             batchInv (historyIndex u) u"
proof (cases "historyIndex st > 0")
  case False
  then have u: "undo st = Some st" by (simp add: undo_def)
  have r: "redo st = Some st" using assms by (simp add: redo_def settled_def)
  from u r settled_batchInv [OF assms] show ?thesis by simp
next
  case True
  let ?n = "length (history st)"
  let ?u = "st\<lparr> historyIndex := historyIndex st - 1,
                canvasState := history st ! nat (historyIndex st - 1) \<rparr>"
  from assms True have ne: "history st \<noteq> []" and lst: "last (history st) = canvasState st"
    and hi: "historyIndex st \<le> int ?n" and lo: "int ?n - 1 \<le> historyIndex st"
    and n20: "?n \<le> 20"
    by (simp_all add: settled_def MAX_HISTORY_STEPS_def)
  have lt: "nat (historyIndex st - 1) < ?n" using True hi by linarith
  then have u: "undo st = Some ?u" using True by (simp add: undo_def Let_def)
  have inv: "batchInv (historyIndex ?u) ?u"
    using True hi n20 assms by (simp add: batchInv_def settled_def MAX_HISTORY_STEPS_def)
  have top: "history st ! (?n - 1) = canvasState st"
    using ne lst by (simp add: last_conv_nth)
  have "\<exists>r. redo ?u = Some r \<and> canvasState r = canvasState st"
  proof (cases "historyIndex st = int ?n")
    case True
    then have "nat (historyIndex st - 1) = ?n - 1" by linarith
    with True top show ?thesis by (simp add: redo_def)
  next
    case False
    with hi lo have eq: "historyIndex st = int ?n - 1" by linarith
    then have "nat (historyIndex st) = ?n - 1" by linarith
    with eq top ne \<open>historyIndex st > 0\<close> show ?thesis by (simp add: redo_def Let_def)
  qed
  with u inv show ?thesis by blast
qed

text \<open>
  Between events, after any sequence of events that each record any number of mutations,
  one \<open>undo\<close> followed by \<open>redo\<close> gives back the document from before the \<open>undo\<close>, and
  once an event records after the \<open>undo\<close>, \<open>canRedo\<close> is false.
\<close>

lemma undo_redo_roundtrip:
  assumes "settled st"
  shows "\<exists>u. undo (runEvents st batches) = Some u \<and>
             (\<exists>r. redo u = Some r \<and> canvasState r = canvasState (runEvents st batches)) \<and>
             (snapshots \<noteq> [] \<longrightarrow> \<not> canRedo (recordBatch u snapshots))"
proof -
  have "settled (runEvents st batches)" using assms by (rule runEvents_settled)
  from undo_redo_settled [OF this] obtain u where
    u: "undo (runEvents st batches) = Some u"
       "\<exists>r. redo u = Some r \<and> canvasState r = canvasState (runEvents st batches)"
       "batchInv (historyIndex u) u"
    by blast
  have "\<not> canRedo (recordBatch u snapshots)" if "snapshots \<noteq> []"
    using batch_nonempty [OF u(3) that] by (simp add: recordBatch_def canRedo_def)
  with u show ?thesis by blast
qed

lemma recolouredHome_eval:
  "history recolouredHome =
     [canvasState (exampleHome [exampleLayer ''a'' 0] (Some ''a'')), canvasState recolouredHome] \<and>
   historyIndex recolouredHome = 1 \<and>
   map color (textLayers (canvasState recolouredHome)) = [''#ff0000'']"
  by (simp add: recolouredHome_def handleUpdateLayer_def commitState_def addToHistory_def
      slice0_def exampleHome_def truthy_def MAX_HISTORY_STEPS_def Let_def exampleLayer_def
      createDefaultTextLayer_def mergeLayer_def noUpdates_def orElse_def orKeep_def)

text \<open>
  Claim C2. The round trip holds (\<open>undo_redo_roundtrip\<close>): here \<open>undo\<close> takes the recoloured
  page back to the black layer and \<open>redo\<close> returns the recoloured page. A record after the
  \<open>undo\<close> makes \<open>canRedo\<close> false, but the cursor is not always at the newest entry: typing
  in the text box of the properties panel after the \<open>undo\<close> (two updates from one render,
  both with the closed-over cursor 0) leaves two snapshots and the cursor 2, one past the
  newest entry. This is the slip of \<open>addToHistory\<close> described under claim C1.
\<close>

theorem C2_cursor_past_newest:
  "history recolouredHome =
     [canvasState (exampleHome [exampleLayer ''a'' 0] (Some ''a'')), canvasState recolouredHome] \<and>
   historyIndex recolouredHome = 1 \<and>
   map color (textLayers (canvasState recolouredHome)) = [''#ff0000''] \<and>
   undo recolouredHome = Some undoneHome \<and>
   map color (textLayers (canvasState undoneHome)) = [''#000000''] \<and>
   redo undoneHome = Some recolouredHome \<and>
   canRedo undoneHome \<and>
   length (history (handleTextChange (Some exampleMeasure) 0 undoneHome ''Hello'')) = 2 \<and>
   historyIndex (handleTextChange (Some exampleMeasure) 0 undoneHome ''Hello'') = 2 \<and>
   \<not> canRedo (handleTextChange (Some exampleMeasure) 0 undoneHome ''Hello'')"
proof -
  note e = recolouredHome_eval
  have h: "history recolouredHome =
     [canvasState (exampleHome [exampleLayer ''a'' 0] (Some ''a'')), canvasState recolouredHome]"
    and i: "historyIndex recolouredHome = 1"
    and c: "map color (textLayers (canvasState recolouredHome)) = [''#ff0000'']"
    using e by simp_all
  have u: "undo recolouredHome = Some undoneHome"
    by (simp add: undo_def undoneHome_def h i Let_def)
  have uc: "map color (textLayers (canvasState undoneHome)) = [''#000000'']"
    by (simp add: undoneHome_def exampleHome_def Let_def exampleLayer_def createDefaultTextLayer_def)
  have uh: "history undoneHome = history recolouredHome" "historyIndex undoneHome = 0"
    by (simp_all add: undoneHome_def)
  have r: "redo undoneHome = Some recolouredHome"
    by (simp add: redo_def uh h Let_def) (simp add: undoneHome_def i [symmetric])
  have cr: "canRedo undoneHome" by (simp add: canRedo_def uh h)
  have sel: "selectedLayer (canvasState undoneHome) = Some (exampleLayer ''a'' 0)"
    by (simp add: undoneHome_def selectedLayer_def exampleHome_def truthy_def Let_def
        exampleLayer_def createDefaultTextLayer_def)
  have tr: "truthy (selectedLayerId (canvasState undoneHome))"
    by (simp add: undoneHome_def exampleHome_def truthy_def Let_def)
  have t: "length (history (handleTextChange (Some exampleMeasure) 0 undoneHome ''Hello'')) = 2 \<and>
     historyIndex (handleTextChange (Some exampleMeasure) 0 undoneHome ''Hello'') = 2"
    by (simp add: handleTextChange_def handleUpdateLayer_def sel tr commitState_def
        addToHistory_def slice0_def uh h MAX_HISTORY_STEPS_def Let_def)
  then have nr: "\<not> canRedo (handleTextChange (Some exampleMeasure) 0 undoneHome ''Hello'')"
    by (simp add: canRedo_def)
  from h i c u uc r cr t nr show ?thesis by (intro conjI) simp_all
qed

text \<open>
  \<open>handleSelectLayer\<close> always commits the whole document with the new selection as the last
  snapshot, whatever cursor its closure holds and also when the selection does not change.
  Issued on its own with a snapshot under the cursor, \<open>undo\<close> afterwards restores the
  document from before, the length is \<open>min 20 (cursor + 2)\<close>, and a full history of 20 loses
  its oldest snapshot.
\<close>

lemma selectLayer_recorded:
  assumes "consistent st" and "0 \<le> historyIndex st"
  shows "handleSelectLayer (historyIndex st) st layerId =
           recordState st ((canvasState st)\<lparr> selectedLayerId := layerId \<rparr>) \<and>
         last (history (handleSelectLayer c st layerId)) =
           (canvasState st)\<lparr> selectedLayerId := layerId \<rparr> \<and>
         canvasState (handleSelectLayer c st layerId) =
           (canvasState st)\<lparr> selectedLayerId := layerId \<rparr> \<and>
         length (history (handleSelectLayer (historyIndex st) st layerId)) =
           min 20 (nat (historyIndex st) + 2) \<and>
         (\<exists>u. undo (handleSelectLayer (historyIndex st) st layerId) = Some u \<and>
               canvasState u = canvasState st) \<and>
         (length (history st) = 20 \<and> historyIndex st = 19 \<longrightarrow>
            history (handleSelectLayer (historyIndex st) st layerId) =
              tl (history st) @ [(canvasState st)\<lparr> selectedLayerId := layerId \<rparr>])"
proof -
  let ?s = "(canvasState st)\<lparr> selectedLayerId := layerId \<rparr>"
  let ?st' = "handleSelectLayer (historyIndex st) st layerId"
  have wf: "wfHistory st" using assms(1) by (simp add: consistent_def)
  have eq: "?st' = recordState st ?s"
    by (simp add: handleSelectLayer_def recordState_def)
  have lst: "last (history (handleSelectLayer c st layerId)) = ?s"
    unfolding handleSelectLayer_def using commitState_last [of c st ?s] by simp
  have doc: "canvasState (handleSelectLayer c st layerId) = ?s"
    by (simp add: handleSelectLayer_def commitState_canvasState)
  have len: "length (history ?st') = min 20 (nat (historyIndex st) + 2)"
    unfolding eq using recordState_length [OF wf, of ?s] assms(2)
    by (simp add: MAX_HISTORY_STEPS_def nat_add_distrib)
  have hist: "history ?st' =
      (let h = take (nat (historyIndex st + 1)) (history st) @ [?s]
       in if length h > MAX_HISTORY_STEPS then tl h else h)"
    unfolding eq using wf by (intro recordState_history) (simp add: wfHistory_def)
  have ix: "historyIndex ?st' = int (length (history ?st')) - 1"
    unfolding eq using wf by (rule recordState_index)
  have cur: "history st ! nat (historyIndex st) = canvasState st"
    using assms by (simp add: consistent_def)
  have ilt: "nat (historyIndex st) < length (history st)"
    using wf assms(2) by (simp add: wfHistory_def) linarith
  have tk: "take (nat (historyIndex st + 1)) (history st) =
            take (nat (historyIndex st)) (history st) @ [canvasState st]"
  proof -
    have "nat (historyIndex st + 1) = Suc (nat (historyIndex st))"
      using assms(2) by linarith
    then show ?thesis using ilt cur by (simp add: take_Suc_conv_app_nth)
  qed
  have und: "\<exists>u. undo ?st' = Some u \<and> canvasState u = canvasState st"
  proof (cases "nat (historyIndex st) + 2 > 20")
    case True
    then have i19: "historyIndex st = 19"
      using wf by (simp add: wfHistory_def MAX_HISTORY_STEPS_def) linarith
    obtain h0 hs where hh: "take 19 (history st) = h0 # hs"
      using ilt i19 by (cases "take 19 (history st)") auto
    have lhs: "length hs = 18"
    proof -
      have "length (take 19 (history st)) = 19" using ilt i19 by simp
      then show ?thesis unfolding hh by simp
    qed
    have h': "history ?st' = hs @ [canvasState st, ?s]"
      using hist tk i19 hh lhs ilt by (simp add: MAX_HISTORY_STEPS_def Let_def)
    have i': "historyIndex ?st' = 19" using ix h' lhs by simp
    have "undo ?st' = Some (?st'\<lparr> historyIndex := 18, canvasState := history ?st' ! 18 \<rparr>)"
      using i' h' lhs by (simp add: undo_def Let_def)
    moreover have "history ?st' ! 18 = canvasState st"
      using h' lhs by (simp add: nth_append)
    ultimately show ?thesis by simp
  next
    case False
    then have h': "history ?st' = take (nat (historyIndex st)) (history st) @ [canvasState st, ?s]"
      using hist tk ilt by (simp add: MAX_HISTORY_STEPS_def Let_def)
    have ltk: "length (take (nat (historyIndex st)) (history st)) = nat (historyIndex st)"
      using ilt by simp
    have i': "historyIndex ?st' = historyIndex st + 1"
      using ix h' ltk assms(2) by simp
    have "undo ?st' = Some (?st'\<lparr> historyIndex := historyIndex st,
                                  canvasState := history ?st' ! nat (historyIndex st) \<rparr>)"
      using i' h' ltk assms(2) by (simp add: undo_def Let_def)
    moreover have "history ?st' ! nat (historyIndex st) = canvasState st"
      unfolding h' using ltk by (simp add: nth_append)
    ultimately show ?thesis by simp
  qed
  have evict: "history ?st' = tl (history st) @ [?s]"
    if "length (history st) = 20 \<and> historyIndex st = 19"
    using hist that by (cases "history st") (simp_all add: MAX_HISTORY_STEPS_def)
  from eq lst doc len und evict show ?thesis by blast
qed

text \<open>
  The same when the cursor is one past the end, as an event that recorded twice leaves it:
  issued on its own between events, a selection change is undone by one \<open>undo\<close>.
\<close>

lemma selectLayer_past_end:
  assumes "settled st" and "historyIndex st = int (length (history st))" and "0 \<le> historyIndex st"
  shows "history (handleSelectLayer (historyIndex st) st layerId) =
           history st @ [(canvasState st)\<lparr> selectedLayerId := layerId \<rparr>] \<and>
         historyIndex (handleSelectLayer (historyIndex st) st layerId) = int (length (history st)) \<and>
         (\<exists>u. undo (handleSelectLayer (historyIndex st) st layerId) = Some u \<and>
               canvasState u = canvasState st)"
proof -
  let ?s = "(canvasState st)\<lparr> selectedLayerId := layerId \<rparr>"
  let ?n = "length (history st)"
  let ?st' = "handleSelectLayer (historyIndex st) st layerId"
  from assms have ne: "history st \<noteq> []" and lst: "last (history st) = canvasState st"
    and n19: "?n \<le> 19"
    by (simp_all add: settled_def MAX_HISTORY_STEPS_def)
  have sl: "slice0 (history st) (int ?n + 1) = history st"
    by (simp add: slice0_def)
  have h: "history ?st' = history st @ [?s]"
    using n19 by (simp add: handleSelectLayer_def commitState_def addToHistory_def assms(2) sl
        MAX_HISTORY_STEPS_def Let_def)
  have i: "historyIndex ?st' = int ?n"
    using n19 by (simp add: handleSelectLayer_def commitState_def addToHistory_def assms(2) sl
        MAX_HISTORY_STEPS_def Let_def)
  have pos: "0 < ?n" using ne by simp
  have top: "history st ! (?n - 1) = canvasState st"
    using ne lst by (simp add: last_conv_nth)
  have "nat (int ?n - 1) = ?n - 1" by linarith
  then have "undo ?st' = Some (?st'\<lparr> historyIndex := int ?n - 1,
                                     canvasState := (history st @ [?s]) ! (?n - 1) \<rparr>)"
    using pos by (simp add: undo_def i h Let_def)
  moreover have "(history st @ [?s]) ! (?n - 1) = canvasState st"
    using pos top by (simp add: nth_append)
  ultimately show ?thesis using h i by simp
qed

lemma settled_consistent:
  assumes "settled st" and "historyIndex st \<noteq> int (length (history st))"
  shows "consistent st"
proof -
  let ?n = "length (history st)"
  from assms have eq: "historyIndex st = int ?n - 1"
    by (simp add: settled_def) 
  show ?thesis
  proof (cases "0 \<le> historyIndex st")
    case False
    with assms eq show ?thesis
      by (simp add: consistent_def wfHistory_def settled_def)
  next
    case True
    with assms(1) have ne: "history st \<noteq> []" and lst: "last (history st) = canvasState st"
      by (simp_all add: settled_def)
    have "nat (historyIndex st) = ?n - 1" using eq by linarith
    then have "history st ! nat (historyIndex st) = canvasState st"
      using ne lst by (simp add: last_conv_nth)
    with assms(1) eq show ?thesis
      by (simp add: consistent_def wfHistory_def settled_def)
  qed
qed

lemma selectLayer_alone:
  assumes "consistent st \<or> settled st" and "0 \<le> historyIndex st"
  shows "\<exists>u. undo (handleSelectLayer (historyIndex st) st layerId) = Some u \<and>
             canvasState u = canvasState st"
proof (cases "consistent st")
  case True
  from selectLayer_recorded [OF True assms(2), of layerId] show ?thesis by blast
next
  case False
  with assms(1) have s: "settled st" by simp
  with False settled_consistent [OF s] have "historyIndex st = int (length (history st))"
    by blast
  from selectLayer_past_end [OF s this assms(2), of layerId] show ?thesis by blast
qed

text \<open>
  Claim C10. Every selection change records a snapshot of the whole document
  (\<open>selectLayer_recorded\<close>) and counts against the bound, and issued on its own it is undone
  by one \<open>undo\<close> (\<open>selectLayer_alone\<close>). It is not undone when it is the second record of
  its event: a double click on the empty canvas sends the layer update and then the
  selection from one render, both with the closed-over cursor 0. The history then holds the
  old document and the final one, the cursor is 2, one past the end, and \<open>undo\<close> only
  moves the cursor: the new layer stays selected. This is the slip of \<open>addToHistory\<close>
  described under claim C1.
\<close>

theorem C10_selection_not_undone:
  "selectedLayerId (canvasState (exampleHome [] None)) = None \<and>
   map id' (textLayers (canvasState createdHome)) = [''n''] \<and>
   selectedLayerId (canvasState createdHome) = Some ''n'' \<and>
   history createdHome = [canvasState (exampleHome [] None), canvasState createdHome] \<and>
   historyIndex createdHome = 2 \<and>
   undo createdHome = Some (createdHome\<lparr> historyIndex := 1 \<rparr>) \<and>
   selectedLayerId (canvasState (createdHome\<lparr> historyIndex := 1 \<rparr>)) = Some ''n''"
proof -
  have ev: "map id' (textLayers (canvasState createdHome)) = [''n''] \<and>
     selectedLayerId (canvasState createdHome) = Some ''n'' \<and>
     history createdHome = [canvasState (exampleHome [] None), canvasState createdHome] \<and>
     historyIndex createdHome = 2"
    by (simp add: createdHome_def handleDoubleClick_def findLayerAtPosition_def
        handleSelectLayer_def updateCanvas_def commitState_def addToHistory_def slice0_def
        mergeCanvasState_def onlyTextLayers_def orElse_def exampleHome_def truthy_def
        MAX_HISTORY_STEPS_def Let_def createDefaultTextLayer_def getNextZIndex_def)
  then have h: "history createdHome = [canvasState (exampleHome [] None), canvasState createdHome]"
    and i: "historyIndex createdHome = 2" by simp_all
  have u: "undo createdHome = Some (createdHome\<lparr> historyIndex := 1 \<rparr>)"
    by (simp add: undo_def h i Let_def)
  have n: "selectedLayerId (canvasState (exampleHome [] None)) = None"
    by (simp add: exampleHome_def Let_def)
  from ev u n show ?thesis by simp
qed

section \<open>Properties of the layer stack\<close>

lemma mapIndexed_length [simp]: "length (mapIndexed f xs) = length xs"
  by (simp add: mapIndexed_def)

lemma mapIndexed_nth: "i < length xs \<Longrightarrow> mapIndexed f xs ! i = f (xs ! i) i"
  by (simp add: mapIndexed_def nth_enumerate_eq)

lemma mapIndexed_snoc: "mapIndexed f (xs @ [v]) = mapIndexed f xs @ [f v (length xs)]"
  by (simp add: mapIndexed_def enumerate_append_eq)

lemma renumber_zIndexes:
  "map zIndex (mapIndexed (\<lambda>layer index. layer\<lparr> zIndex := int index \<rparr>) xs) = map int [0..<length xs]"
  by (rule nth_equalityI) (simp_all add: mapIndexed_nth)

lemma normalize_length [simp]: "length (normalizeZIndexes ls) = length ls"
  by (simp add: normalizeZIndexes_def)

lemma normalize_zIndexes: "map zIndex (normalizeZIndexes ls) = map int [0..<length ls]"
  using renumber_zIndexes [of "sort_key zIndex ls"] by (simp add: normalizeZIndexes_def)

lemma reorder_zIndexes:
  assumes "reorderLayers ls from to = Some r"
  shows "map zIndex r = map int [0..<length ls] \<and> length r = length ls"
proof -
  from assms have lt: "from < length ls"
    by (simp add: reorderLayers_def split: if_splits)
  let ?res = "take from ls @ drop (Suc from) ls"
  let ?r2 = "take to ?res @ [ls ! from] @ drop to ?res"
  have r: "r = mapIndexed (\<lambda>layer index. layer\<lparr> zIndex := int index \<rparr>) ?r2"
    using assms lt by (simp add: reorderLayers_def Let_def)
  have len: "length ?r2 = length ls" using lt by (simp add: min_def) 
  have "map zIndex r = map int [0..<length ?r2]"
    unfolding r by (rule renumber_zIndexes)
  moreover have "length r = length ?r2"
    unfolding r by (rule mapIndexed_length)
  ultimately show ?thesis by (simp only: len)
qed

lemma insort_key_snoc:
  "f v \<le> f w \<Longrightarrow> insort_key f v (ws @ [w]) = insort_key f v ws @ [w]"
  by (induction ws) simp_all

lemma foldr_insort_snoc:
  "\<forall>v\<in>set xs. f v \<le> f w \<Longrightarrow>
   foldr (insort_key f) xs (zs @ [w]) = foldr (insort_key f) xs zs @ [w]"
  by (induction xs) (simp_all add: insort_key_snoc)

lemma sort_key_snoc:
  assumes "\<forall>v\<in>set xs. f v \<le> f w"
  shows "sort_key f (xs @ [w]) = sort_key f xs @ [w]"
  using foldr_insort_snoc [OF assms, of "[]"] by (simp add: sort_key_def)

lemma getNextZIndex_above:
  assumes "l \<in> set ls"
  shows "zIndex l < getNextZIndex ls"
proof -
  have "zIndex l \<le> Max (set (map zIndex ls))"
    using assms by (intro Max_ge) auto
  moreover have "ls \<noteq> []" using assms by auto
  ultimately show ?thesis by (simp add: getNextZIndex_def)
qed

lemma normalize_nth:
  "i < length ls \<Longrightarrow> normalizeZIndexes ls ! i = (sort_key zIndex ls ! i)\<lparr> zIndex := int i \<rparr>"
  by (simp add: normalizeZIndexes_def mapIndexed_nth)

lemma normalize_order:
  assumes "a \<in> set ls" and "b \<in> set ls" and "zIndex a < zIndex b"
  shows "\<exists>i j. i < j \<and> j < length ls \<and>
               normalizeZIndexes ls ! i = a\<lparr> zIndex := int i \<rparr> \<and>
               normalizeZIndexes ls ! j = b\<lparr> zIndex := int j \<rparr>"
proof -
  let ?srt = "sort_key zIndex ls"
  from assms(1) have "a \<in> set ?srt" by simp
  then obtain i where i: "i < length ?srt" "?srt ! i = a"
    unfolding in_set_conv_nth by blast
  from assms(2) have "b \<in> set ?srt" by simp
  then obtain j where j: "j < length ?srt" "?srt ! j = b"
    unfolding in_set_conv_nth by blast
  have srt: "sorted (map zIndex ?srt)" by (rule sorted_sort_key)
  have "i < j"
  proof (rule ccontr)
    assume "\<not> i < j"
    then have "j \<le> i" by simp
    with srt i(1) have "map zIndex ?srt ! j \<le> map zIndex ?srt ! i"
      by (intro sorted_nth_mono) simp_all
    with i j assms(3) show False by simp
  qed
  moreover have "normalizeZIndexes ls ! i = a\<lparr> zIndex := int i \<rparr>"
    using i normalize_nth [of i ls] by simp
  moreover have "normalizeZIndexes ls ! j = b\<lparr> zIndex := int j \<rparr>"
    using j normalize_nth [of j ls] by simp
  ultimately show ?thesis using j(1) by auto
qed

lemma normalize_dense: "dense (normalizeZIndexes ls)"
  by (simp add: dense_def normalize_zIndexes)

lemma normalize_snoc_top:
  assumes "\<forall>l\<in>set ls. zIndex l \<le> zIndex d"
  shows "normalizeZIndexes (ls @ [d]) = normalizeZIndexes ls @ [d\<lparr> zIndex := int (length ls) \<rparr>]"
  using sort_key_snoc [of ls zIndex d, OF assms]
  by (simp add: normalizeZIndexes_def mapIndexed_snoc)

lemma duplicate_layers:
  assumes "find (\<lambda>l. id' l = layerId) (textLayers (canvasState st)) = Some src"
  shows "canvasState (handleDuplicateLayer randomId hi st layerId) =
           (canvasState st)\<lparr> textLayers := normalizeZIndexes (textLayers (canvasState st)) @
              [src\<lparr> id' := randomId, x := x src + 20, y := y src + 20,
                    zIndex := int (length (textLayers (canvasState st))) \<rparr>] \<rparr>"
proof -
  let ?ls = "textLayers (canvasState st)"
  let ?d = "src\<lparr> id' := randomId, x := x src + 20, y := y src + 20, zIndex := getNextZIndex ?ls \<rparr>"
  have "\<forall>l\<in>set ?ls. zIndex l \<le> zIndex ?d"
    using getNextZIndex_above [of _ ?ls] by (auto intro: less_imp_le)
  from normalize_snoc_top [OF this] show ?thesis
    using assms by (simp add: handleDuplicateLayer_def commitState_def Let_def)
qed

lemma getNextZIndex_dense:
  assumes "dense ls"
  shows "getNextZIndex ls = int (length ls)"
proof (cases "ls = []")
  case True
  then show ?thesis by (simp add: getNextZIndex_def)
next
  case False
  then have pos: "0 < length ls" by simp
  from assms have "set (map zIndex ls) = set (map int [0..<length ls])"
    unfolding dense_def by (rule mset_eq_setD)
  then have "Max (set (map zIndex ls)) = Max (int ` {0..<length ls})" by simp
  also have "\<dots> = int (Max {0..<length ls})"
    using pos by (intro mono_Max_commute [symmetric]) (auto simp: mono_def)
  also have "Max {0..<length ls} = length ls - 1"
    using pos by (intro Max_eqI) auto
  finally show ?thesis using False pos by (simp add: getNextZIndex_def)
qed

lemma append_next_dense:
  assumes "dense ls"
  shows "dense (ls @ [l\<lparr> zIndex := getNextZIndex ls \<rparr>])"
  using assms getNextZIndex_dense [OF assms] by (simp add: dense_def)

lemma doubleClick_dense:
  assumes "dense (textLayers (canvasState st))"
    and "findLayerAtPosition tempCtx (canvasState st) posX posY = None"
    and "truthy (image' (canvasState st))"
  shows "dense (textLayers (canvasState
           (fst (handleDoubleClick tempCtx randomId showGrid hi st cv posX posY))))"
  using assms(2,3) append_next_dense [OF assms(1)]
  by (simp add: handleDoubleClick_def handleSelectLayer_def updateCanvas_def commitState_def
      addToHistory_def mergeCanvasState_def onlyTextLayers_def orElse_def Let_def)

text \<open>
  Claim C3. Renormalization yields the \<open>zIndex\<close> values \<open>0, ..., N-1\<close>, and so do adding a
  layer (with an image loaded), deleting a layer, duplicating an existing layer and
  reordering (\<open>reorderLayers\<close>, and the page's \<open>onUpdateLayers\<close> after it), for every
  document. Renormalization keeps the prior order: of two layers with \<open>a\<close> below \<open>b\<close>,
  \<open>a\<close> ends up at an earlier position, and each layer sits at the position that is its
  new \<open>zIndex\<close>. The canvas's double-click creation appends on top without renormalizing
  and keeps the values \<open>0, ..., N\<close> of a document that had \<open>0, ..., N-1\<close>.
\<close>

theorem C3_zIndex_dense:
  "dense (normalizeZIndexes ls) \<and>
   (truthy (image' (canvasState st)) \<longrightarrow>
      dense (textLayers (canvasState (handleAddTextLayer randomId hi st)))) \<and>
   dense (textLayers (canvasState (handleDeleteLayer hi st layerId))) \<and>
   (find (\<lambda>l. id' l = layerId) (textLayers (canvasState st)) \<noteq> None \<longrightarrow>
      dense (textLayers (canvasState (handleDuplicateLayer randomId hi st layerId)))) \<and>
   (\<forall>r. reorderLayers ls fromIndex toIndex = Some r \<longrightarrow>
      dense r \<and> dense (textLayers (canvasState (onUpdateLayers hi st r)))) \<and>
   (\<forall>a b. a \<in> set ls \<and> b \<in> set ls \<and> zIndex a < zIndex b \<longrightarrow>
      (\<exists>i j. i < j \<and> j < length ls \<and>
             normalizeZIndexes ls ! i = a\<lparr> zIndex := int i \<rparr> \<and>
             normalizeZIndexes ls ! j = b\<lparr> zIndex := int j \<rparr>)) \<and>
   (dense (textLayers (canvasState st)) \<and>
    findLayerAtPosition tempCtx (canvasState st) posX posY = None \<and>
    truthy (image' (canvasState st)) \<longrightarrow>
      dense (textLayers (canvasState
        (fst (handleDoubleClick tempCtx randomId showGrid hi st cv posX posY)))))"
proof -
  have add: "dense (textLayers (canvasState (handleAddTextLayer randomId hi st)))"
    if "truthy (image' (canvasState st))"
    using that by (simp add: handleAddTextLayer_def commitState_def Let_def normalize_dense)
  have del: "dense (textLayers (canvasState (handleDeleteLayer hi st layerId)))"
    by (simp add: handleDeleteLayer_def commitState_def Let_def normalize_dense)
  have dup: "dense (textLayers (canvasState (handleDuplicateLayer randomId hi st layerId)))"
    if "find (\<lambda>l. id' l = layerId) (textLayers (canvasState st)) \<noteq> None"
    using that
    by (auto simp: handleDuplicateLayer_def commitState_def Let_def normalize_dense)
  have reo: "dense r \<and> dense (textLayers (canvasState (onUpdateLayers hi st r)))"
    if "reorderLayers ls fromIndex toIndex = Some r" for r
    using reorder_zIndexes [OF that]
    by (simp add: dense_def onUpdateLayers_def commitState_def Let_def normalize_zIndexes)
  have dbl: "dense (textLayers (canvasState
        (fst (handleDoubleClick tempCtx randomId showGrid hi st cv posX posY))))"
    if "dense (textLayers (canvasState st)) \<and>
        findLayerAtPosition tempCtx (canvasState st) posX posY = None \<and>
        truthy (image' (canvasState st))"
    using that doubleClick_dense [of st tempCtx posX posY randomId showGrid hi cv] by blast
  from add del dup reo normalize_order [of _ ls] normalize_dense [of ls] dbl
  show ?thesis by blast
qed

theorem C3_zIndex_dense_witness:
  "truthy (image' (canvasState (exampleHome [exampleLayer ''a'' 5, exampleLayer ''b'' 2] None))) \<and>
   map zIndex (textLayers (canvasState
     (handleAddTextLayer ''c'' 0 (exampleHome [exampleLayer ''a'' 5, exampleLayer ''b'' 2] None)))) = [0, 1, 2] \<and>
   map zIndex (textLayers (canvasState
     (handleDuplicateLayer ''c'' 0 (exampleHome [exampleLayer ''a'' 5, exampleLayer ''b'' 2] None) ''a''))) = [0, 1, 2] \<and>
   map id' (normalizeZIndexes [exampleLayer ''a'' 5, exampleLayer ''b'' 2]) = [''b'', ''a''] \<and>
   dense (textLayers (canvasState
     (handleAddTextLayer ''c'' 0 (exampleHome [exampleLayer ''a'' 5, exampleLayer ''b'' 2] None)))) \<and>
   dense (textLayers (canvasState
     (handleDuplicateLayer ''c'' 0 (exampleHome [exampleLayer ''a'' 5, exampleLayer ''b'' 2] None) ''a''))) \<and>
   (\<exists>r. reorderLayers [exampleLayer ''a'' 5, exampleLayer ''b'' 2] 0 1 = Some r \<and> dense r) \<and>
   (\<exists>i j. i < j \<and> j < 2 \<and>
      normalizeZIndexes [exampleLayer ''a'' 5, exampleLayer ''b'' 2] ! i = (exampleLayer ''b'' 2)\<lparr> zIndex := int i \<rparr> \<and>
      normalizeZIndexes [exampleLayer ''a'' 5, exampleLayer ''b'' 2] ! j = (exampleLayer ''a'' 5)\<lparr> zIndex := int j \<rparr>) \<and>
   (dense (textLayers (canvasState (exampleHome [exampleLayer ''a'' 0] None))) \<and>
    findLayerAtPosition (Some exampleMeasure) (canvasState (exampleHome [exampleLayer ''a'' 0] None)) 300 200 = None \<and>
    truthy (image' (canvasState (exampleHome [exampleLayer ''a'' 0] None)))) \<and>
   dense (textLayers (canvasState
     (fst (handleDoubleClick (Some exampleMeasure) ''c'' False 0 (exampleHome [exampleLayer ''a'' 0] None)
            (editingCanvas ''a'' []) 300 200))))"
proof -
  let ?ls = "[exampleLayer ''a'' 5, exampleLayer ''b'' 2]"
  let ?st = "exampleHome ?ls None"
  note th = C3_zIndex_dense [of ?ls ?st "''c''" 0 "''a''" 0 1]
  have img: "truthy (image' (canvasState ?st))"
    by (simp add: exampleHome_def truthy_def Let_def)
  have fnd: "find (\<lambda>l. id' l = ''a'') (textLayers (canvasState ?st)) \<noteq> None"
    by (simp add: exampleHome_def exampleLayer_def createDefaultTextLayer_def Let_def)
  have reo: "reorderLayers ?ls 0 1 \<noteq> None"
    by (simp add: reorderLayers_def)
  have ord: "exampleLayer ''b'' 2 \<in> set ?ls \<and> exampleLayer ''a'' 5 \<in> set ?ls \<and>
             zIndex (exampleLayer ''b'' 2) < zIndex (exampleLayer ''a'' 5)"
    by (simp add: exampleLayer_def)
  have srt: "sort_key zIndex ?ls = [exampleLayer ''b'' 2, exampleLayer ''a'' 5]"
    by (simp add: exampleLayer_def)
  have z1: "map zIndex (textLayers (canvasState (handleAddTextLayer ''c'' 0 ?st))) = [0, 1, 2]"
    by (simp add: handleAddTextLayer_def commitState_def Let_def normalize_zIndexes 
        exampleHome_def truthy_def upt_rec)
  have z2: "map zIndex (textLayers (canvasState (handleDuplicateLayer ''c'' 0 ?st ''a''))) = [0, 1, 2]"
    by (simp add: handleDuplicateLayer_def commitState_def Let_def normalize_zIndexes
        exampleHome_def exampleLayer_def createDefaultTextLayer_def upt_rec)
  have ids: "map id' (normalizeZIndexes ?ls) = [''b'', ''a'']"
    by (simp add: normalizeZIndexes_def mapIndexed_def srt) (simp add: exampleLayer_def createDefaultTextLayer_def)
  have d1: "dense (textLayers (canvasState (handleAddTextLayer ''c'' 0 ?st)))"
    using th [THEN conjunct2, THEN conjunct1] img by (rule mp)
  have d2: "dense (textLayers (canvasState (handleDuplicateLayer ''c'' 0 ?st ''a'')))"
    using th [THEN conjunct2, THEN conjunct2, THEN conjunct2, THEN conjunct1] fnd by (rule mp)
  from reo obtain r where r: "reorderLayers ?ls 0 1 = Some r" by blast
  have d3: "\<exists>r. reorderLayers ?ls 0 1 = Some r \<and> dense r"
    using th [THEN conjunct2, THEN conjunct2, THEN conjunct2, THEN conjunct2, THEN conjunct1,
        rule_format, OF r] r by blast
  have d4: "\<exists>i j. i < j \<and> j < length ?ls \<and>
      normalizeZIndexes ?ls ! i = (exampleLayer ''b'' 2)\<lparr> zIndex := int i \<rparr> \<and>
      normalizeZIndexes ?ls ! j = (exampleLayer ''a'' 5)\<lparr> zIndex := int j \<rparr>"
    using th [THEN conjunct2, THEN conjunct2, THEN conjunct2, THEN conjunct2, THEN conjunct2,
        THEN conjunct1, rule_format, OF ord] .
  have l2: "length ?ls = 2" by simp
  let ?one = "exampleHome [exampleLayer ''a'' 0] None"
  have pre: "dense (textLayers (canvasState ?one)) \<and>
      findLayerAtPosition (Some exampleMeasure) (canvasState ?one) 300 200 = None \<and>
      truthy (image' (canvasState ?one))"
    by (simp add: dense_def findLayerAtPosition_def exampleHome_def exampleLayer_def
        createDefaultTextLayer_def exampleMeasure_def cssFont_def truthy_def Let_def)
  have d5: "dense (textLayers (canvasState
      (fst (handleDoubleClick (Some exampleMeasure) ''c'' False 0 ?one (editingCanvas ''a'' []) 300 200))))"
    using C3_zIndex_dense [of ?ls ?one "''c''" 0 "''a''" 0 1 "Some exampleMeasure" 300 200 False
        "editingCanvas ''a'' []", THEN conjunct2, THEN conjunct2, THEN conjunct2, THEN conjunct2,
        THEN conjunct2, THEN conjunct2, rule_format, OF pre] .
  from img z1 z2 ids d1 d2 d3 d4 [unfolded l2] pre [THEN conjunct1]
    pre [THEN conjunct2, THEN conjunct1] pre [THEN conjunct2, THEN conjunct2] d5
  show ?thesis by (intro conjI)
qed

text \<open>
  Claim C7, as amended. When the id is found, the result keeps every other field of the
  document and its layers are the renormalized old layers followed by the clone: the source
  with the drawn id, position offset by \<open>(+20, +20)\<close> and the top \<open>zIndex\<close> \<open>N\<close>, so the
  \<open>zIndex\<close> values are \<open>0, ..., N\<close>. The clone's id is the string drawn from the random
  generator: it differs from the source's id when the drawn string does, and the ids stay
  distinct when the drawn string is not among them. When the id is not found the state is
  returned unchanged.
\<close>

theorem C7_duplicate_layer:
  "(\<forall>src. find (\<lambda>l. id' l = layerId) (textLayers (canvasState st)) = Some src \<longrightarrow>
      canvasState (handleDuplicateLayer randomId hi st layerId) =
        (canvasState st)\<lparr> textLayers := normalizeZIndexes (textLayers (canvasState st)) @
           [src\<lparr> id' := randomId, x := x src + 20, y := y src + 20,
                 zIndex := int (length (textLayers (canvasState st))) \<rparr>] \<rparr> \<and>
      map zIndex (textLayers (canvasState (handleDuplicateLayer randomId hi st layerId))) =
        map int [0..<length (textLayers (canvasState st)) + 1] \<and>
      (randomId \<noteq> layerId \<longrightarrow>
         id' (last (textLayers (canvasState (handleDuplicateLayer randomId hi st layerId)))) \<noteq> id' src) \<and>
      (randomId \<notin> id' ` set (textLayers (canvasState st)) \<longrightarrow>
         distinct (map id' (textLayers (canvasState st))) \<longrightarrow>
         distinct (map id' (textLayers (canvasState (handleDuplicateLayer randomId hi st layerId)))))) \<and>
   (find (\<lambda>l. id' l = layerId) (textLayers (canvasState st)) = None \<longrightarrow>
      handleDuplicateLayer randomId hi st layerId = st)"
proof -
  let ?ls = "textLayers (canvasState st)"
  let ?st' = "handleDuplicateLayer randomId hi st layerId"
  have none: "?st' = st" if "find (\<lambda>l. id' l = layerId) ?ls = None"
    using that by (simp add: handleDuplicateLayer_def)
  have some: "canvasState ?st' =
        (canvasState st)\<lparr> textLayers := normalizeZIndexes ?ls @
           [src\<lparr> id' := randomId, x := x src + 20, y := y src + 20,
                 zIndex := int (length ?ls) \<rparr>] \<rparr> \<and>
      map zIndex (textLayers (canvasState ?st')) = map int [0..<length ?ls + 1] \<and>
      (randomId \<noteq> layerId \<longrightarrow> id' (last (textLayers (canvasState ?st'))) \<noteq> id' src) \<and>
      (randomId \<notin> id' ` set ?ls \<longrightarrow> distinct (map id' ?ls) \<longrightarrow>
         distinct (map id' (textLayers (canvasState ?st'))))"
    if f: "find (\<lambda>l. id' l = layerId) ?ls = Some src" for src
  proof -
    note d = duplicate_layers [OF f, of randomId hi]
    have srcid: "id' src = layerId"
      using f by (auto simp: find_Some_iff)
    have ids: "map id' (normalizeZIndexes ?ls) = map id' (sort_key zIndex ?ls)"
      by (rule nth_equalityI) (simp_all add: normalize_nth)
    have "mset (map id' (sort_key zIndex ?ls)) = mset (map id' ?ls)"
      by simp
    then have dist: "distinct (map id' (normalizeZIndexes ?ls)) = distinct (map id' ?ls)"
      and sets: "set (map id' (normalizeZIndexes ?ls)) = set (map id' ?ls)"
      unfolding ids by (metis mset_eq_imp_distinct_iff, metis mset_eq_setD)
    have z: "map zIndex (textLayers (canvasState ?st')) = map int [0..<length ?ls + 1]"
      unfolding d by (simp add: normalize_zIndexes)
    have fresh: "distinct (map id' (textLayers (canvasState ?st')))"
      if "randomId \<notin> id' ` set ?ls" "distinct (map id' ?ls)"
      unfolding d using that dist sets by auto
    have lst: "id' (last (textLayers (canvasState ?st'))) = randomId"
      unfolding d by simp
    from d z fresh srcid lst show ?thesis by (intro conjI impI) simp_all
  qed
  from none some show ?thesis by blast
qed

theorem C7_duplicate_layer_witness:
  "find (\<lambda>l. id' l = ''a'') (textLayers (canvasState (exampleHome [exampleLayer ''a'' 0] None))) =
     Some (exampleLayer ''a'' 0) \<and>
   textLayers (canvasState (handleDuplicateLayer ''b'' 0 (exampleHome [exampleLayer ''a'' 0] None) ''a'')) =
     [exampleLayer ''a'' 0, (exampleLayer ''a'' 0)\<lparr> id' := ''b'', x := 30, y := 30, zIndex := 1 \<rparr>] \<and>
   map zIndex (textLayers (canvasState
     (handleDuplicateLayer ''b'' 0 (exampleHome [exampleLayer ''a'' 0] None) ''a''))) = [0, 1] \<and>
   find (\<lambda>l. id' l = ''zz'') (textLayers (canvasState (exampleHome [exampleLayer ''a'' 0] None))) = None \<and>
   handleDuplicateLayer ''b'' 0 (exampleHome [exampleLayer ''a'' 0] None) ''zz'' =
     exampleHome [exampleLayer ''a'' 0] None"
proof -
  let ?st = "exampleHome [exampleLayer ''a'' 0] None"
  have ls: "textLayers (canvasState ?st) = [exampleLayer ''a'' 0]"
    by (simp add: exampleHome_def Let_def)
  have f: "find (\<lambda>l. id' l = ''a'') (textLayers (canvasState ?st)) = Some (exampleLayer ''a'' 0)"
    unfolding ls by (simp add: exampleLayer_def createDefaultTextLayer_def)
  have n: "find (\<lambda>l. id' l = ''zz'') (textLayers (canvasState ?st)) = None"
    unfolding ls by (simp add: exampleLayer_def createDefaultTextLayer_def)
  have nrm: "normalizeZIndexes [exampleLayer ''a'' 0] = [exampleLayer ''a'' 0]"
    by (simp add: normalizeZIndexes_def mapIndexed_def exampleLayer_def)
  have xy: "x (exampleLayer ''a'' 0) + 20 = 30" "y (exampleLayer ''a'' 0) + 20 = 30"
    by (simp_all add: exampleLayer_def createDefaultTextLayer_def)
  note found = C7_duplicate_layer [of "''a''" ?st "''b''" 0, THEN conjunct1, rule_format, OF f]
  note missing = C7_duplicate_layer [of "''zz''" ?st "''b''" 0, THEN conjunct2, rule_format, OF n]
  have layers: "textLayers (canvasState (handleDuplicateLayer ''b'' 0 ?st ''a'')) =
     [exampleLayer ''a'' 0, (exampleLayer ''a'' 0)\<lparr> id' := ''b'', x := 30, y := 30, zIndex := 1 \<rparr>]"
    using found [THEN conjunct1] by (simp add: ls nrm xy)
  have zs: "map zIndex (textLayers (canvasState (handleDuplicateLayer ''b'' 0 ?st ''a''))) = [0, 1]"
    using found [THEN conjunct2, THEN conjunct1] by (simp add: ls)
  from f layers zs n missing show ?thesis by (intro conjI)
qed

text \<open>
  The part of claim C7 that fails: nothing compares the drawn id with the existing ones.
  \<open>Math.random() = 0.5\<close> yields the id \<open>i\<close> (\<open>(0.5).toString(36)\<close> is \<open>0.i\<close>), both when the
  first layer is created and when it is duplicated.
\<close>

theorem C7_fresh_id_counterexample:
  "map id' (textLayers (canvasState
     (handleDuplicateLayer ''i'' 0 (exampleHome [exampleLayer ''i'' 0] None) ''i''))) = [''i'', ''i'']"
  by (simp add: handleDuplicateLayer_def commitState_def Let_def exampleHome_def exampleLayer_def
      createDefaultTextLayer_def getNextZIndex_def normalizeZIndexes_def mapIndexed_def)

section \<open>Properties of layer updates\<close>

lemma find_map_same:
  assumes "\<And>v. P (g v) = P v"
  shows "find P (map g vs) = map_option g (find P vs)"
  by (induction vs) (simp_all add: assms)













section \<open>Properties of hit-testing\<close>

lemma hitLoop_find:
  "hitLoop (Some m) px py ls = find (\<lambda>layer. hittable layer \<and> inBox m layer px py) ls"
  by (induction ls)
     (auto simp: hittable_def inBox_def boxLeft_def boxTop_def textWidth_def textHeight_def Let_def
           split: TextAlign.splits)

lemma findLayerAtPosition_hitTest:
  "findLayerAtPosition (Some m) cs px py = hitTest m (textLayers cs) px py"
  by (simp add: findLayerAtPosition_def hitTest_def hitLoop_find)

lemma insort_key_map_same:
  assumes "\<And>v. f (g v) = f v"
  shows "insort_key f (g v) (map g vs) = map g (insort_key f v vs)"
  by (induction vs) (simp_all add: assms)

lemma sort_key_map_same:
  assumes "\<And>v. f (g v) = f v"
  shows "sort_key f (map g vs) = map g (sort_key f vs)"
  by (induction vs) (simp_all add: insort_key_map_same [of f g, OF assms])

lemma hitTest_rotation:
  "hitTest m (map (withRotation r) ls) px py = map_option (withRotation r) (hitTest m ls px py)"
proof -
  have key: "- zIndex (withRotation r v) = - zIndex v" for v
    by (simp add: withRotation_def)
  have pred: "(hittable (withRotation r v) \<and> inBox m (withRotation r v) px py) =
              (hittable v \<and> inBox m v px py)" for v
    by (cases "textAlign v")
       (simp_all add: withRotation_def hittable_def inBox_def boxLeft_def boxTop_def
          textWidth_def textHeight_def)
  show ?thesis
    unfolding hitTest_def
    using sort_key_map_same [of "\<lambda>l. - zIndex l" "withRotation r" ls, OF key]
          find_map_same [of "\<lambda>layer. hittable layer \<and> inBox m layer px py" "withRotation r", OF pred]
    by simp
qed

lemma hitTest_Some:
  assumes "hitTest m ls px py = Some l"
  shows "l \<in> set ls \<and> hittable l \<and> inBox m l px py \<and>
         (\<forall>k\<in>set ls. hittable k \<and> inBox m k px py \<longrightarrow> zIndex k \<le> zIndex l)"
proof -
  let ?P = "\<lambda>layer. hittable layer \<and> inBox m layer px py"
  let ?srt = "sort_key (\<lambda>l. - zIndex l) ls"
  from assms obtain i where i: "i < length ?srt" "?P (?srt ! i)" "l = ?srt ! i"
    "\<forall>j<i. \<not> ?P (?srt ! j)"
    unfolding hitTest_def find_Some_iff by blast
  have mem: "l \<in> set ls" using i(1,3) by (metis nth_mem set_sort)
  have srt: "sorted (map (\<lambda>l. - zIndex l) ?srt)" by (rule sorted_sort_key)
  have top: "zIndex k \<le> zIndex l" if k: "k \<in> set ls" "?P k" for k
  proof -
    from k(1) have "k \<in> set ?srt" by simp
    then obtain j where j: "j < length ?srt" "?srt ! j = k"
      unfolding in_set_conv_nth by blast
    with i(4) k(2) have "i \<le> j" by (meson not_le_imp_less)
    with srt j(1) have "map (\<lambda>l. - zIndex l) ?srt ! i \<le> map (\<lambda>l. - zIndex l) ?srt ! j"
      by (intro sorted_nth_mono) simp_all
    with i(1,3) j show ?thesis by simp
  qed
  from mem i(2,3) top show ?thesis by blast
qed

lemma hitTest_None:
  "hitTest m ls px py = None \<longleftrightarrow> \<not> (\<exists>k\<in>set ls. hittable k \<and> inBox m k px py)"
  by (auto simp: hitTest_def find_None_iff)

text \<open>
  Claim C5. With a measurement context, \<open>findLayerAtPosition\<close> is the hit test of the
  specification: it returns a layer of the document that can be hit and whose box contains
  the point, with no such layer above it, and returns nothing exactly when no such layer
  exists. Replacing the rotations of the layers by any other values changes nothing but
  the rotation of the layer returned.
\<close>

theorem C5_hit_test:
  "findLayerAtPosition (Some m) cs px py = hitTest m (textLayers cs) px py \<and>
   (\<forall>l. findLayerAtPosition (Some m) cs px py = Some l \<longrightarrow>
      l \<in> set (textLayers cs) \<and> hittable l \<and> inBox m l px py \<and>
      (\<forall>k\<in>set (textLayers cs). hittable k \<and> inBox m k px py \<longrightarrow> zIndex k \<le> zIndex l)) \<and>
   (findLayerAtPosition (Some m) cs px py = None \<longleftrightarrow>
      \<not> (\<exists>k\<in>set (textLayers cs). hittable k \<and> inBox m k px py)) \<and>
   findLayerAtPosition (Some m) (cs\<lparr> textLayers := map (withRotation r) (textLayers cs) \<rparr>) px py =
     map_option (withRotation r) (findLayerAtPosition (Some m) cs px py)"
  using hitTest_Some [of m "textLayers cs" px py] hitTest_None [of m "textLayers cs" px py]
    hitTest_rotation [of m r "textLayers cs" px py]
  by (simp add: findLayerAtPosition_hitTest)

theorem C5_hit_test_witness:
  "findLayerAtPosition (Some exampleMeasure)
     (canvasState (exampleHome [exampleLayer ''a'' 0, exampleLayer ''b'' 1] None)) 20 0 =
     Some (exampleLayer ''b'' 1) \<and>
   hittable (exampleLayer ''b'' 1) \<and> inBox exampleMeasure (exampleLayer ''b'' 1) 20 0 \<and>
   findLayerAtPosition (Some exampleMeasure)
     (canvasState (exampleHome [exampleLayer ''a'' 0, exampleLayer ''b'' 1] None)) 20 200 = None"
proof -
  let ?ls = "[exampleLayer ''a'' 0, exampleLayer ''b'' 1]"
  let ?cs = "canvasState (exampleHome ?ls None)"
  have ls: "textLayers ?cs = ?ls" by (simp add: exampleHome_def Let_def)
  have srt: "sort_key (\<lambda>l. - zIndex l) ?ls = [exampleLayer ''b'' 1, exampleLayer ''a'' 0]"
    by (simp add: exampleLayer_def)
  have hit: "findLayerAtPosition (Some exampleMeasure) ?cs 20 0 = Some (exampleLayer ''b'' 1)"
    unfolding findLayerAtPosition_def ls Let_def srt
    by (simp add: exampleLayer_def createDefaultTextLayer_def exampleMeasure_def cssFont_def)
  have miss: "findLayerAtPosition (Some exampleMeasure) ?cs 20 200 = None"
    unfolding findLayerAtPosition_def ls Let_def srt
    by (simp add: exampleLayer_def createDefaultTextLayer_def exampleMeasure_def cssFont_def)
  note top = C5_hit_test [of exampleMeasure ?cs 20 0, THEN conjunct2, THEN conjunct1, rule_format, OF hit]
  from hit top miss show ?thesis by (intro conjI) simp_all
qed

section \<open>Properties of snapping\<close>

lemma mathRound_int: "mathRound (of_int k) = of_int k"
proof -
  have "\<lfloor>of_int k + (1::real) / 2\<rfloor> = k" by linarith
  then show ?thesis by (simp add: mathRound_def)
qed

lemma snapToGrid_aligned: "snapToGrid (20 * of_int k) 20 = 20 * of_int k"
  using mathRound_int [of k] by (simp add: snapToGrid_def)

lemma snapToGrid_near: "\<bar>snapToGrid v 20 - v\<bar> \<le> 10"
proof -
  let ?k = "\<lfloor>v / 20 + 1 / 2\<rfloor>"
  have "of_int ?k \<le> v / 20 + 1 / 2" "v / 20 + 1 / 2 < of_int ?k + 1"
    by linarith+
  then show ?thesis by (simp add: snapToGrid_def mathRound_def) linarith
qed

lemma snapToGrid_multiple: "\<exists>k::int. snapToGrid v 20 = 20 * of_int k"
  by (auto simp: snapToGrid_def mathRound_def)

lemma snapToGrid_idem: "snapToGrid (snapToGrid v 20) 20 = snapToGrid v 20"
  using snapToGrid_multiple [of v] snapToGrid_aligned by auto

lemma snapToCenter_fst:
  "fst (snapToCenter px py w h) = (if \<bar>px - w / 2\<bar> < 50 then w / 2 else px)"
  by (simp add: snapToCenter_def Let_def)

lemma snapToCenter_snd:
  "snd (snapToCenter px py w h) = (if \<bar>py - h / 2\<bar> < 50 then h / 2 else py)"
  by (simp add: snapToCenter_def Let_def)

lemma snapPipeline_axes:
  "snapPipeline showGrid px py w h = (snapAxis showGrid px (w / 2), snapAxis showGrid py (h / 2))"
  by (simp add: snapPipeline_def snapToCenter_def snapAxis_def Let_def)

lemma snapAxis_idem: "snapAxis showGrid (snapAxis showGrid v c) c = snapAxis showGrid v c"
proof (cases showGrid)
  case False
  then show ?thesis by (simp add: snapAxis_def Let_def)
next
  case True
  show ?thesis
  proof (cases "\<bar>snapToGrid v 20 - c\<bar> < 50")
    case near: True
    have "\<bar>snapToGrid c 20 - c\<bar> < 50" using snapToGrid_near [of c] by linarith
    with near True show ?thesis by (simp add: snapAxis_def Let_def)
  next
    case far: False
    with True show ?thesis by (simp add: snapAxis_def Let_def snapToGrid_idem)
  qed
qed

lemma snapAxis_center: "snapAxis showGrid c c = c"
  using snapToGrid_near [of c] by (simp add: snapAxis_def Let_def)

text \<open>
  Claim C6, as amended. The pipeline is grid snap (when active) followed by center snap.
  Grid snap yields a multiple of 20 at most 10 away; center snap replaces a coordinate less
  than 50 away from the center by the center. Applying the pipeline to its own result
  changes nothing. Grid snap leaves a multiple of 20 unchanged; the pipeline leaves a
  grid-aligned coordinate unchanged when it is at least 50 away from the center and moves
  it to the center otherwise. The center itself is returned exactly.
\<close>

theorem C6_snap_pipeline:
  "snapPipeline showGrid px py w h =
     snapToCenter (if showGrid then snapToGrid px 20 else px)
                  (if showGrid then snapToGrid py 20 else py) w h \<and>
   (\<exists>k::int. snapToGrid px 20 = 20 * of_int k) \<and> \<bar>snapToGrid px 20 - px\<bar> \<le> 10 \<and>
   snapToCenter px py w h = (if \<bar>px - w / 2\<bar> < 50 then w / 2 else px,
                             if \<bar>py - h / 2\<bar> < 50 then h / 2 else py) \<and>
   (case snapPipeline showGrid px py w h of (qx, qy) \<Rightarrow>
      snapPipeline showGrid qx qy w h = snapPipeline showGrid px py w h) \<and>
   snapToGrid (20 * of_int i) 20 = 20 * of_int i \<and>
   snapPipeline showGrid (20 * of_int i) (20 * of_int j) w h =
     (if \<bar>20 * of_int i - w / 2\<bar> < 50 then w / 2 else 20 * of_int i,
      if \<bar>20 * of_int j - h / 2\<bar> < 50 then h / 2 else 20 * of_int j) \<and>
   snapPipeline showGrid (w / 2) (h / 2) w h = (w / 2, h / 2)"
proof -
  have order: "snapPipeline showGrid px py w h =
     snapToCenter (if showGrid then snapToGrid px 20 else px)
                  (if showGrid then snapToGrid py 20 else py) w h"
    by (simp add: snapPipeline_def Let_def)
  have center: "snapToCenter px py w h = (if \<bar>px - w / 2\<bar> < 50 then w / 2 else px,
                             if \<bar>py - h / 2\<bar> < 50 then h / 2 else py)"
    by (simp add: snapToCenter_def Let_def)
  have idem: "case snapPipeline showGrid px py w h of (qx, qy) \<Rightarrow>
      snapPipeline showGrid qx qy w h = snapPipeline showGrid px py w h"
    by (simp add: snapPipeline_axes snapAxis_idem)
  have aligned: "snapPipeline showGrid (20 * of_int i) (20 * of_int j) w h =
     (if \<bar>20 * of_int i - w / 2\<bar> < 50 then w / 2 else 20 * of_int i,
      if \<bar>20 * of_int j - h / 2\<bar> < 50 then h / 2 else 20 * of_int j)"
    by (simp add: snapPipeline_axes snapAxis_def Let_def snapToGrid_aligned)
  have fixed: "snapPipeline showGrid (w / 2) (h / 2) w h = (w / 2, h / 2)"
    by (simp add: snapPipeline_axes snapAxis_center)
  from order snapToGrid_multiple [of px] snapToGrid_near [of px] center idem
    snapToGrid_aligned [of i] aligned fixed
  show ?thesis by (intro conjI)
qed

text \<open>
  The part of claim C6 that fails for the pipeline: on a 400 x 300 document the
  grid-aligned position \<open>(180, 100)\<close> is moved to \<open>(200, 100)\<close>, since center snap runs after
  grid snap and overrides it.
\<close>

theorem C6_grid_aligned_counterexample:
  "snapToGrid 180 20 = 180 \<and> snapToGrid 100 20 = 100 \<and>
   snapPipeline True 180 100 400 300 = (200, 100)"
  by (simp add: snapPipeline_def snapToCenter_def snapToGrid_def mathRound_def Let_def)

section \<open>Properties of the export\<close>

text \<open>
  Claim C8. Without a background image the export fails and the page state is as before.
  With a context, an image and a successful load, the canvas is sized
  \<open>(imageWidth * scale, imageHeight * scale)\<close>, the first paint is a fill of that whole area
  with \<open>#ffffff\<close> (no other fill of a rectangle follows), then the image and the layers are
  drawn, and the encoder gets the quality only for \<open>jpg\<close>. The page state is never changed.
\<close>

theorem C8_export:
  "(\<not> truthy (image' (canvasState st)) \<longrightarrow>
      (\<exists>e. handleExport ctxAvailable imageLoads st options = (Inl e, st))) \<and>
   (ctxAvailable \<and> imageLoads \<and> truthy (image' (canvasState st)) \<longrightarrow>
      (\<exists>img drawn.
         image' (canvasState st) = Some img \<and> FillRect 0 0
            (imageWidth (canvasState st) * ExportOptions.scale options)
            (imageHeight (canvasState st) * ExportOptions.scale options) \<notin> set drawn \<and>
         handleExport ctxAvailable imageLoads st options =
           (Inr \<lparr> commands =
                    [SetWidth (imageWidth (canvasState st) * ExportOptions.scale options),
                     SetHeight (imageHeight (canvasState st) * ExportOptions.scale options),
                     SetFillStyle ''#ffffff'',
                     FillRect 0 0 (imageWidth (canvasState st) * ExportOptions.scale options)
                                  (imageHeight (canvasState st) * ExportOptions.scale options)] @
                    DrawImage img 0 0 (imageWidth (canvasState st) * ExportOptions.scale options)
                                      (imageHeight (canvasState st) * ExportOptions.scale options) #
                    drawn,
                  mimeType = (if format options = JPG then ''image/jpeg'' else ''image/png''),
                  encoderQuality = (if format options = JPG then Some (quality options) else None) \<rparr>,
            st))) \<and>
   snd (handleExport ctxAvailable imageLoads st options) = st"
proof -
  have drawn: "c \<in> set (drawLayer s l) \<Longrightarrow> c \<noteq> FillRect a b w h" for c s l a b w h
    by (auto simp: drawLayer_def split: if_splits)
  have nofill: "FillRect a b w h \<notin> set (concat (map (drawLayer s) ls))" for a b w h s ls
    using drawn by fastforce
  have fail: "\<exists>e. handleExport ctxAvailable imageLoads st options = (Inl e, st)"
    if "\<not> truthy (image' (canvasState st))"
    using that by (simp add: handleExport_def Let_def)
  have ok: "\<exists>img drawn.
         image' (canvasState st) = Some img \<and> FillRect 0 0
            (imageWidth (canvasState st) * ExportOptions.scale options)
            (imageHeight (canvasState st) * ExportOptions.scale options) \<notin> set drawn \<and>
         handleExport ctxAvailable imageLoads st options =
           (Inr \<lparr> commands =
                    [SetWidth (imageWidth (canvasState st) * ExportOptions.scale options),
                     SetHeight (imageHeight (canvasState st) * ExportOptions.scale options),
                     SetFillStyle ''#ffffff'',
                     FillRect 0 0 (imageWidth (canvasState st) * ExportOptions.scale options)
                                  (imageHeight (canvasState st) * ExportOptions.scale options)] @
                    DrawImage img 0 0 (imageWidth (canvasState st) * ExportOptions.scale options)
                                      (imageHeight (canvasState st) * ExportOptions.scale options) #
                    drawn,
                  mimeType = (if format options = JPG then ''image/jpeg'' else ''image/png''),
                  encoderQuality = (if format options = JPG then Some (quality options) else None) \<rparr>,
            st)"
    if "ctxAvailable \<and> imageLoads \<and> truthy (image' (canvasState st))"
  proof -
    from that obtain img where img: "image' (canvasState st) = Some img"
      by (auto simp: truthy_def split: option.splits)
    show ?thesis
      apply (rule exI [of _ img])
      apply (rule exI [of _ "concat (map (drawLayer (ExportOptions.scale options))
                                      (sort_key zIndex (textLayers (canvasState st))))"])
      using that img nofill by (simp add: handleExport_def Let_def)
  qed
  have frame: "snd (handleExport ctxAvailable imageLoads st options) = st"
    by (simp add: handleExport_def Let_def)
  from fail ok frame show ?thesis by blast
qed

theorem C8_export_witness:
  "\<not> truthy (image' (canvasState initialHome)) \<and>
   (\<exists>e. handleExport True True initialHome \<lparr> format = PNG, quality = 1, scale = 1 \<rparr> = (Inl e, initialHome)) \<and>
   truthy (image' (canvasState (exampleHome [] None))) \<and>
   handleExport True True (exampleHome [] None) \<lparr> format = PNG, quality = 1, scale = 2 \<rparr> =
     (Inr \<lparr> commands = [SetWidth 800, SetHeight 600, SetFillStyle ''#ffffff'', FillRect 0 0 800 600,
                         DrawImage ''img'' 0 0 800 600],
            mimeType = ''image/png'', encoderQuality = None \<rparr>, exampleHome [] None) \<and>
   encoderQuality (projr (fst (handleExport True True (exampleHome [] None)
                                 \<lparr> format = JPG, quality = 4 / 5, scale = 2 \<rparr>))) = Some (4 / 5)"
proof -
  let ?S = "exampleHome [] None"
  let ?png = "\<lparr> format = PNG, quality = 1, scale = 2 \<rparr>"
  let ?jpg = "\<lparr> format = JPG, quality = 4 / 5, scale = 2 \<rparr>"
  have n: "\<not> truthy (image' (canvasState initialHome))"
    by (simp add: initialHome_def blankState_def truthy_def)
  have t: "truthy (image' (canvasState ?S))"
    by (simp add: exampleHome_def truthy_def Let_def)
  note fail = C8_export [of initialHome True True "\<lparr> format = PNG, quality = 1, scale = 1 \<rparr>",
      THEN conjunct1, rule_format, OF n]
  have pre: "True \<and> True \<and> truthy (image' (canvasState ?S))" using t by simp
  note jpg = C8_export [of ?S True True ?jpg, THEN conjunct2, THEN conjunct1, rule_format, OF pre]
  have doc: "image' (canvasState ?S) = Some ''img''" "imageWidth (canvasState ?S) = 400"
    "imageHeight (canvasState ?S) = 300" "textLayers (canvasState ?S) = []"
    by (simp_all add: exampleHome_def Let_def)
  have p: "handleExport True True ?S ?png =
     (Inr \<lparr> commands = [SetWidth 800, SetHeight 600, SetFillStyle ''#ffffff'', FillRect 0 0 800 600,
                         DrawImage ''img'' 0 0 800 600],
            mimeType = ''image/png'', encoderQuality = None \<rparr>, ?S)"
    by (simp add: handleExport_def doc truthy_def Let_def)
  have j: "encoderQuality (projr (fst (handleExport True True ?S ?jpg))) = Some (4 / 5)"
    using jpg by auto
  from n fail t p j show ?thesis by (intro conjI)
qed

section \<open>Properties of the text editor\<close>

lemma trim_blank:
  assumes "\<forall>c\<in>set s. isWhiteSpace c"
  shows "trim s = []"
proof -
  have dw: "dropWhile isWhiteSpace s = []" using assms by (induction s) simp_all
  show ?thesis unfolding trim_def dw by simp
qed

text \<open>
  Claim C9. Committing a text edit whose text is empty or white space only leaves the page
  state (document, history and cursor) as it was and only leaves the editing mode.
\<close>

theorem C9_blank_text_commit:
  assumes "\<forall>c\<in>set (editingText cv). isWhiteSpace c"
  shows "handleTextEditSave tempCtx hi st cv =
           (st, cv\<lparr> editingLayerId := None, editingText := [] \<rparr>)"
  using trim_blank [OF assms] by (simp add: handleTextEditSave_def)

theorem C9_blank_text_commit_witness:
  "handleTextEditSave (Some (\<lambda>f t. 8 * real (length t))) 0
       (exampleHome [exampleLayer ''a'' 0] (Some ''a''))
       (editingCanvas ''a'' [CHR '' '', CHR 0x09, CHR 0x0A]) =
     (exampleHome [exampleLayer ''a'' 0] (Some ''a''),
      (editingCanvas ''a'' [CHR '' '', CHR 0x09, CHR 0x0A])\<lparr> editingLayerId := None, editingText := [] \<rparr>)"
proof -
  have h: "\<forall>c\<in>set (editingText (editingCanvas ''a'' [CHR '' '', CHR 0x09, CHR 0x0A])). isWhiteSpace c"
    by (simp add: editingCanvas_def isWhiteSpace_def)
  from C9_blank_text_commit [OF h] show ?thesis .
qed

end
